theory Spec2Isabelle
  imports Complex_Main "HOL-Library.Multiset"
begin

section \<open>Equal-weight and momentum share allocation: the embedding\<close>

text \<open>
  The two notebooks are straight-line scripts over a pandas table. The embedding keeps
  their stages as functions from a table to a table: a table is the list of its rows, in
  index order, and a row is a record of the notebook's columns. A cell that is still
  \<^verbatim>\<open>pd.NA\<close> or a JSON \<^verbatim>\<open>null\<close> is \<open>None\<close>. An exception that ends the
  script is a value \<open>Inl e\<close>.
\<close>

datatype py_error =
  ValueError | KeyError | TypeError | ZeroDivisionError | OverflowError | AssertionError
  | StatisticsError

subsection \<open>Doubles\<close>

text \<open>
  Prices, returns, percentiles and scores are Python floats: IEEE 754 doubles. A finite
  double is the rational it denotes, and an arithmetic operation is the exact operation
  followed by rounding to the nearest double, ties to the even significand. \<open>rne\<close>
  rounds to the nearest integer, ties to even; \<open>ilog2\<close> is the binary exponent of a
  positive rational; \<open>to_double\<close> rounds to 53 significant bits, or to a multiple of
  \<open>2 powi (- 1074)\<close> below the normal range. A result that rounds to \<open>2 ^ 1024\<close> or
  beyond is infinite: \<open>overflows\<close>.
\<close>

definition rne :: "rat \<Rightarrow> int" where
  "rne y =
     (let f = \<lfloor>y\<rfloor>; d = y - of_int f
      in if d < 1 / 2 then f else if 1 / 2 < d then f + 1 else if even f then f else f + 1)"

function ilog2 :: "rat \<Rightarrow> int" where
  "ilog2 x =
     (if 2 \<le> x then ilog2 (x / 2) + 1
      else if 0 < x \<and> x < 1 then ilog2 (x * 2) - 1
      else 0)"
  by pat_completeness auto
termination
proof (relation "measure (\<lambda>x. if 2 \<le> x then nat \<lceil>x\<rceil> else if 0 < x \<and> x < 1 then nat \<lceil>1 / x\<rceil> else 0)")
  show "wf (measure (\<lambda>x. if 2 \<le> x then nat \<lceil>x\<rceil> else if 0 < x \<and> x < 1 then nat \<lceil>1 / x\<rceil> else 0))"
    by simp
next
  fix x :: rat assume a: "2 \<le> x"
  have "\<lceil>x / 2\<rceil> < \<lceil>x\<rceil>"
  proof -
    have "x / 2 \<le> x - 1" using a by simp
    then have "\<lceil>x / 2\<rceil> \<le> \<lceil>x - 1\<rceil>" by (rule ceiling_mono)
    then show ?thesis by simp
  qed
  moreover have "0 < \<lceil>x\<rceil>" using a by (simp add: less_ceiling_iff)
  ultimately show "(x / 2, x) \<in> measure (\<lambda>x. if 2 \<le> x then nat \<lceil>x\<rceil> else if 0 < x \<and> x < 1 then nat \<lceil>1 / x\<rceil> else 0)"
    using a by auto
next
  fix x :: rat assume a: "\<not> 2 \<le> x" "0 < x \<and> x < 1"
  have big: "1 < 1 / x" using a by simp
  have "\<lceil>1 / (x * 2)\<rceil> < \<lceil>1 / x\<rceil>" if "x * 2 < 1"
  proof -
    have "2 < 1 / x" using that a by (simp add: field_simps)
    then have "1 / x / 2 \<le> 1 / x - 1" by simp
    then have "\<lceil>1 / x / 2\<rceil> \<le> \<lceil>1 / x - 1\<rceil>" by (rule ceiling_mono)
    then show ?thesis by (simp add: mult.commute)
  qed
  moreover have "0 < \<lceil>1 / x\<rceil>" using big a by (simp add: less_ceiling_iff)
  ultimately show "(x * 2, x) \<in> measure (\<lambda>x. if 2 \<le> x then nat \<lceil>x\<rceil> else if 0 < x \<and> x < 1 then nat \<lceil>1 / x\<rceil> else 0)"
    using a by auto
qed

declare ilog2.simps [simp del]

definition to_double :: "rat \<Rightarrow> rat" where
  "to_double x =
     (if x = 0 then 0
      else let e = max (ilog2 \<bar>x\<bar>) (- 1022);
               ulp = 2 powi (e - 52)
           in of_int (rne (x / ulp)) * ulp)"

definition overflows :: "rat \<Rightarrow> bool" where
  "overflows x = (2 ^ 1024 \<le> \<bar>to_double x\<bar>)"


subsection \<open>Batcher: \<^verbatim>\<open>chunks_generator\<close>\<close>

text \<open>
  \<^verbatim>\<open>
  def chunks_generator(lst, n):
      for i in range(0, len(lst), n):
          yield lst[i:i + n]
  \<close>
  \<open>range\<close> counts upwards for a positive step, downwards for a negative one, and
  raises \<^verbatim>\<open>ValueError\<close> for a zero step. The notebooks consume the generator at once
  with \<^verbatim>\<open>list(...)\<close>, so the embedding returns the list of the yielded slices.
\<close>

function range_up :: "int \<Rightarrow> int \<Rightarrow> int \<Rightarrow> int list" where
  "range_up i stop step =
     (if 0 < step \<and> i < stop then i # range_up (i + step) stop step else [])"
  by pat_completeness auto
termination
  by (relation "measure (\<lambda>(i, stop, step). nat (stop - i))") auto

function range_down :: "int \<Rightarrow> int \<Rightarrow> int \<Rightarrow> int list" where
  "range_down i stop step =
     (if step < 0 \<and> stop < i then i # range_down (i + step) stop step else [])"
  by pat_completeness auto
termination
  by (relation "measure (\<lambda>(i, stop, step). nat (i - stop))") auto

declare range_up.simps [simp del] range_down.simps [simp del]

definition py_range :: "int \<Rightarrow> int \<Rightarrow> int \<Rightarrow> py_error + int list" where
  "py_range start stop step =
     (if step = 0 then Inl ValueError
      else if 0 < step then Inr (range_up start stop step)
      else Inr (range_down start stop step))"

text \<open>A slice bound: negative bounds count from the end, and both ends are clamped.\<close>

definition slice_index :: "nat \<Rightarrow> int \<Rightarrow> nat" where
  "slice_index len i = (if i < 0 then nat (max 0 (int len + i)) else min len (nat i))"

definition py_slice :: "'a list \<Rightarrow> int \<Rightarrow> int \<Rightarrow> 'a list" where
  "py_slice lst a b =
     (let lo = slice_index (length lst) a; hi = slice_index (length lst) b
      in take (hi - lo) (drop lo lst))"

definition chunks_generator :: "'a list \<Rightarrow> int \<Rightarrow> py_error + 'a list list" where
  "chunks_generator lst n =
     (case py_range 0 (int (length lst)) n of
        Inl e \<Rightarrow> Inl e
      | Inr starts \<Rightarrow> Inr (map (\<lambda>i. py_slice lst i (i + n)) starts))"

subsection \<open>Tables\<close>

text \<open>
  Every table of the notebooks has the columns \<^verbatim>\<open>ticker\<close>, \<^verbatim>\<open>stock_price\<close> and
  \<^verbatim>\<open>num_of_shares_to_buy\<close>; the equal-weight table adds \<^verbatim>\<open>market_cap\<close>, the
  first momentum table \<^verbatim>\<open>one_year_return\<close>, and the high-quality momentum table the
  other returns, the percentiles and the score.
\<close>

record row =
  ticker :: string
  stock_price :: rat
  num_of_shares_to_buy :: "int option"

record eq_row = row +
  market_cap :: "rat option"

record mom_row = row +
  one_year_return :: "rat option"

record hqm_row = mom_row +
  one_year_return_percentile :: "rat option"
  six_month_return :: "rat option"
  six_month_return_percentile :: "rat option"
  three_month_return :: "rat option"
  three_month_return_percentile :: "rat option"
  one_month_return :: "rat option"
  one_month_return_percentile :: "rat option"
  momentum_score :: "rat option"

subsection \<open>Allocator\<close>

text \<open>
  \<^verbatim>\<open>
  position_size = portfolio_size / len(df.index)
  for i in range(len(df.index)):
      df.loc[i, "num_of_shares_to_buy"] = math.floor(position_size / df.loc[i, "stock_price"])
  \<close>
  The budget is an integer constant of the scripts, so the first division is Python's
  true division of integers: the exact quotient rounded to a double,
  \<^verbatim>\<open>ZeroDivisionError\<close> on an empty table and \<^verbatim>\<open>OverflowError\<close> when the quotient
  is beyond the doubles. The second division is a division of doubles. A zero price ends
  the loop with an exception (\<^verbatim>\<open>ZeroDivisionError\<close> for a Python number; for a NumPy
  number the quotient is infinite or NaN and \<^verbatim>\<open>math.floor\<close> raises): the embedding
  gives both the one name. An infinite quotient makes \<^verbatim>\<open>math.floor\<close> raise
  \<^verbatim>\<open>OverflowError\<close>. The loop visits the rows in index order and assigns one column;
  the same three lines serve all three tables.
\<close>

fun calc_shares :: "rat \<Rightarrow> 'a row_scheme list \<Rightarrow> py_error + 'a row_scheme list" where
  "calc_shares position_size [] = Inr []"
| "calc_shares position_size (r # rs) =
     (if stock_price r = 0 then Inl ZeroDivisionError
      else if overflows (position_size / stock_price r) then Inl OverflowError
      else case calc_shares position_size rs of
             Inl e \<Rightarrow> Inl e
           | Inr rs' \<Rightarrow>
               Inr (r\<lparr>num_of_shares_to_buy :=
                       Some \<lfloor>to_double (position_size / stock_price r)\<rfloor>\<rparr> # rs'))"

definition allocate :: "rat \<Rightarrow> 'a row_scheme list \<Rightarrow> py_error + rat \<times> 'a row_scheme list" where
  "allocate portfolio_size df =
     (if length df = 0 then Inl ZeroDivisionError
      else if overflows (portfolio_size / of_nat (length df)) then Inl OverflowError
      else let position_size = to_double (portfolio_size / of_nat (length df))
           in case calc_shares position_size df of
                Inl e \<Rightarrow> Inl e
              | Inr df' \<Rightarrow> Inr (position_size, df'))"

subsection \<open>The quote service and the construction of the tables\<close>

text \<open>
  The data provider is outside the repository: it is a parameter \<open>get\<close> from the
  comma-separated symbol string of a batch request to the decoded JSON answer, a
  dictionary from symbol to entry, or \<open>None\<close> when the status is not 200 (the
  \<^verbatim>\<open>assert\<close> then ends the script). Prices are numbers, decoded to doubles; a
  return or a market capitalisation may be \<^verbatim>\<open>null\<close>.
  \<^verbatim>\<open>
  symbol_groups = list(chunks_generator(stocks["Ticker"], 100))
  symbol_strings = [",".join(symbol_groups[i]) for i in range(len(symbol_groups))]
  for symbol_string in symbol_strings:
      data = requests.get(batch_request_url)
      assert(data.status_code == 200)
      data = data.json()
      for symbol in symbol_string.split(","):
          df = df.append(pd.Series([symbol, data[symbol][...], ...]), ignore_index=True)
  \<close>
\<close>

fun py_join :: "string \<Rightarrow> string list \<Rightarrow> string" where
  "py_join sep [] = []"
| "py_join sep [x] = x"
| "py_join sep (x # y # ys) = x @ sep @ py_join sep (y # ys)"

fun py_split :: "char \<Rightarrow> string \<Rightarrow> string list" where
  "py_split c [] = [[]]"
| "py_split c (x # xs) =
     (if x = c then [] # py_split c xs
      else case py_split c xs of
             [] \<Rightarrow> [[x]]
           | w # ws \<Rightarrow> (x # w) # ws)"

definition symbol_strings :: "string list \<Rightarrow> py_error + string list" where
  "symbol_strings stocks =
     (case chunks_generator stocks 100 of
        Inl e \<Rightarrow> Inl e
      | Inr symbol_groups \<Rightarrow> Inr (map (py_join '','') symbol_groups))"

text \<open>
  One loop builds every table; the notebooks differ in the entry they read and in the
  row they append. \<open>mk\<close> is the \<^verbatim>\<open>pd.Series([...])\<close> of the loop body.
\<close>

fun append_rows ::
  "(string \<Rightarrow> 'e \<Rightarrow> 'r) \<Rightarrow> (string \<rightharpoonup> 'e) \<Rightarrow> string list \<Rightarrow> 'r list \<Rightarrow> py_error + 'r list" where
  "append_rows mk data [] df = Inr df"
| "append_rows mk data (symbol # rest) df =
     (case data symbol of
        None \<Rightarrow> Inl KeyError
      | Some e \<Rightarrow> append_rows mk data rest (df @ [mk symbol e]))"

fun build_table ::
  "(string \<Rightarrow> 'e \<Rightarrow> 'r) \<Rightarrow> (string \<Rightarrow> (string \<rightharpoonup> 'e) option) \<Rightarrow> string list \<Rightarrow> 'r list
     \<Rightarrow> py_error + 'r list" where
  "build_table mk get [] df = Inr df"
| "build_table mk get (symbol_string # rest) df =
     (case get symbol_string of
        None \<Rightarrow> Inl AssertionError
      | Some data \<Rightarrow>
          (case append_rows mk data (py_split CHR '','' symbol_string) df of
             Inl e \<Rightarrow> Inl e
           | Inr df' \<Rightarrow> build_table mk get rest df'))"

text \<open>The equal-weight notebook reads the \<^verbatim>\<open>quote\<close> of every symbol.\<close>

record quote_entry =
  latestPrice :: rat
  marketCap :: "rat option"

definition new_eq_row :: "string \<Rightarrow> quote_entry \<Rightarrow> eq_row" where
  "new_eq_row symbol q =
     \<lparr>ticker = symbol, stock_price = latestPrice q, num_of_shares_to_buy = None,
      market_cap = marketCap q\<rparr>"

text \<open>The momentum notebook reads \<^verbatim>\<open>price\<close> and \<^verbatim>\<open>stats\<close>.\<close>

record stats_entry =
  price :: rat
  year1ChangePercent :: "rat option"
  month6ChangePercent :: "rat option"
  month3ChangePercent :: "rat option"
  month1ChangePercent :: "rat option"

definition new_mom_row :: "string \<Rightarrow> stats_entry \<Rightarrow> mom_row" where
  "new_mom_row symbol e =
     \<lparr>ticker = symbol, stock_price = price e, num_of_shares_to_buy = None,
      one_year_return = year1ChangePercent e\<rparr>"

definition new_hqm_row :: "string \<Rightarrow> stats_entry \<Rightarrow> hqm_row" where
  "new_hqm_row symbol e =
     \<lparr>ticker = symbol, stock_price = price e, num_of_shares_to_buy = None,
      one_year_return = year1ChangePercent e, one_year_return_percentile = None,
      six_month_return = month6ChangePercent e, six_month_return_percentile = None,
      three_month_return = month3ChangePercent e, three_month_return_percentile = None,
      one_month_return = month1ChangePercent e, one_month_return_percentile = None,
      momentum_score = None\<rparr>"

text \<open>
  \<^verbatim>\<open>hqm_df = hqm_df.dropna(subset=["one_year_return"])  # dropping outdated stocks\<close>
\<close>

definition dropna_one_year :: "'a mom_row_scheme list \<Rightarrow> 'a mom_row_scheme list" where
  "dropna_one_year df = filter (\<lambda>r. one_year_return r \<noteq> None) df"

definition hqm_table ::
  "(string \<Rightarrow> (string \<rightharpoonup> stats_entry) option) \<Rightarrow> string list \<Rightarrow> py_error + hqm_row list" where
  "hqm_table get stocks =
     (case symbol_strings stocks of
        Inl e \<Rightarrow> Inl e
      | Inr strs \<Rightarrow> build_table new_hqm_row get strs [])"

definition hqm_universe ::
  "(string \<Rightarrow> (string \<rightharpoonup> stats_entry) option) \<Rightarrow> string list \<Rightarrow> py_error + hqm_row list" where
  "hqm_universe get stocks =
     (case hqm_table get stocks of
        Inl e \<Rightarrow> Inl e
      | Inr hqm_df \<Rightarrow> Inr (dropna_one_year hqm_df))"

definition equal_weight_table ::
  "(string \<Rightarrow> (string \<rightharpoonup> quote_entry) option) \<Rightarrow> string list \<Rightarrow> py_error + eq_row list" where
  "equal_weight_table get stocks =
     (case symbol_strings stocks of
        Inl e \<Rightarrow> Inl e
      | Inr strs \<Rightarrow> build_table new_eq_row get strs [])"

subsection \<open>PercentileRanker\<close>

text \<open>
  \<^verbatim>\<open>
  for row in hqm_df.index:
      for time_period in time_periods:
          return_col = f"{time_period}_return"
          percentile_col = f"{time_period}_return_percentile"
          hqm_df.loc[row, percentile_col] =
              stats.percentileofscore(hqm_df[return_col], hqm_df.loc[row, return_col]) / 100
  \<close>
  The call leaves \<^verbatim>\<open>kind\<close> at its default \<^verbatim>\<open>'rank'\<close>. The repository does not say
  which SciPy it runs on, and the arithmetic of the function changed with SciPy 1.9:
  \<^verbatim>\<open>
  n = len(a)                                    # before 1.9
  if n == 0: return 100.0
  left = np.count_nonzero(a < score)
  right = np.count_nonzero(a <= score)
  pct = (right + left + (1 if right > left else 0)) * 50.0 / n

  if n == 0: perct = nan                        # since 1.9
  left = count(a < score); right = count(a <= score); plus1 = left < right
  perct = (left + right + plus1) * (50.0 / n)
  \<close>
  Both are embedded, operation by operation; a NaN is \<open>None\<close>. A table has fewer than
  \<open>2 ^ 63\<close> rows, which keeps every value of this stage finite.
\<close>

datatype scipy_formula = Before_1_9 | Since_1_9

definition percentileofscore :: "scipy_formula \<Rightarrow> rat list \<Rightarrow> rat \<Rightarrow> rat option" where
  "percentileofscore formula a score =
     (let n = length a
      in if n = 0 then (case formula of Before_1_9 \<Rightarrow> Some 100 | Since_1_9 \<Rightarrow> None)
         else let left = length (filter (\<lambda>x. x < score) a);
                  right = length (filter (\<lambda>x. x \<le> score) a);
                  ranks = to_double (of_nat (right + left + (if left < right then 1 else 0)))
              in case formula of
                   Before_1_9 \<Rightarrow> Some (to_double (to_double (ranks * 50) / to_double (of_nat n)))
                 | Since_1_9 \<Rightarrow> Some (to_double (ranks * to_double (50 / to_double (of_nat n)))))"

definition percentile_cell :: "scipy_formula \<Rightarrow> rat list \<Rightarrow> rat \<Rightarrow> rat option" where
  "percentile_cell formula column v =
     (case percentileofscore formula column v of
        None \<Rightarrow> None
      | Some pct \<Rightarrow> Some (to_double (pct / 100)))"

text \<open>
  The loop is embedded for a table whose four return columns hold numbers only. What
  pandas and SciPy do with a missing return depends on the type pandas gave the column
  (a \<^verbatim>\<open>None\<close> in an object column, a NaN in a float column): for such a table the
  embedding gives no result, \<open>None\<close>.
\<close>

definition returns :: "hqm_row \<Rightarrow> (rat \<times> rat \<times> rat \<times> rat) option" where
  "returns r =
     (case (one_year_return r, six_month_return r, three_month_return r, one_month_return r) of
        (Some y, Some s, Some t, Some m) \<Rightarrow> Some (y, s, t, m)
      | _ \<Rightarrow> None)"

definition percentile_row ::
  "scipy_formula \<Rightarrow> (rat \<times> rat \<times> rat \<times> rat) list \<Rightarrow> hqm_row \<times> rat \<times> rat \<times> rat \<times> rat \<Rightarrow> hqm_row" where
  "percentile_row formula rets = (\<lambda>(r, y, s, t, m).
     r\<lparr>one_year_return_percentile := percentile_cell formula (map (\<lambda>(y, s, t, m). y) rets) y,
       six_month_return_percentile := percentile_cell formula (map (\<lambda>(y, s, t, m). s) rets) s,
       three_month_return_percentile := percentile_cell formula (map (\<lambda>(y, s, t, m). t) rets) t,
       one_month_return_percentile := percentile_cell formula (map (\<lambda>(y, s, t, m). m) rets) m\<rparr>)"

definition calc_percentiles :: "scipy_formula \<Rightarrow> hqm_row list \<Rightarrow> hqm_row list option" where
  "calc_percentiles formula hqm_df =
     (case those (map returns hqm_df) of
        None \<Rightarrow> None
      | Some rets \<Rightarrow> Some (map (percentile_row formula rets) (zip hqm_df rets)))"

subsection \<open>ScoreAggregator\<close>

text \<open>
  \<^verbatim>\<open>
  for row in hqm_df.index:
      momentum_percentiles = [hqm_df.loc[row, f"{time_period}_return"] for time_period in time_periods]
      hqm_df.loc[row, "momentum_score"] = mean(momentum_percentiles)
  \<close>
  \<^verbatim>\<open>statistics.mean\<close> sums exactly, divides by the count and converts the quotient to
  a double; it raises \<^verbatim>\<open>StatisticsError\<close> on no data and \<^verbatim>\<open>TypeError\<close> on a
  \<^verbatim>\<open>None\<close>.
\<close>

text \<open>A loop over the rows that stops at the first exception.\<close>

fun for_rows :: "('r \<Rightarrow> py_error + 'r) \<Rightarrow> 'r list \<Rightarrow> py_error + 'r list" where
  "for_rows body [] = Inr []"
| "for_rows body (r # rs) =
     (case body r of
        Inl e \<Rightarrow> Inl e
      | Inr r' \<Rightarrow> (case for_rows body rs of Inl e \<Rightarrow> Inl e | Inr rs' \<Rightarrow> Inr (r' # rs')))"

definition mean :: "rat option list \<Rightarrow> py_error + rat" where
  "mean xs =
     (if xs = [] then Inl StatisticsError
      else if None \<in> set xs then Inl TypeError
      else Inr (to_double (sum_list (map the xs) / of_nat (length xs))))"

definition momentum_row :: "hqm_row \<Rightarrow> py_error + hqm_row" where
  "momentum_row r =
     (let momentum_percentiles =
            [one_year_return r, six_month_return r, three_month_return r, one_month_return r]
      in case mean momentum_percentiles of
           Inl e \<Rightarrow> Inl e
         | Inr m \<Rightarrow> Inr (r\<lparr>momentum_score := Some m\<rparr>))"

definition calc_momentum_score :: "hqm_row list \<Rightarrow> py_error + hqm_row list" where
  "calc_momentum_score hqm_df = for_rows momentum_row hqm_df"

text \<open>
  The score as the notebook's prose and the specification describe it: the mean of the
  row's four percentile columns.
\<close>

definition mean_of_percentiles :: "hqm_row \<Rightarrow> py_error + rat" where
  "mean_of_percentiles r =
     mean [one_year_return_percentile r, six_month_return_percentile r,
           three_month_return_percentile r, one_month_return_percentile r]"

subsection \<open>Selector\<close>

text \<open>
  \<^verbatim>\<open>
  hqm_df = hqm_df.sort_values(by="momentum_score", ascending=False)[:50].reset_index(drop=True)
  df.sort_values("one_year_return", ascending=False, inplace=True)
  df = df.iloc[:50,:].reset_index(drop=True)
  \<close>
  \<^verbatim>\<open>sort_values\<close> is called with its default \<^verbatim>\<open>kind='quicksort'\<close> and
  \<^verbatim>\<open>na_position='last'\<close>. The sort itself is NumPy's and is not part of the
  repository: it is a parameter \<open>argsort\<close>, which given the keys returns their positions
  in descending order of key.
\<close>

definition sort_values_desc ::
  "(rat list \<Rightarrow> nat list) \<Rightarrow> ('r \<Rightarrow> rat option) \<Rightarrow> 'r list \<Rightarrow> 'r list" where
  "sort_values_desc argsort col df =
     (let present = filter (\<lambda>r. col r \<noteq> None) df;
          missing = filter (\<lambda>r. col r = None) df
      in map (\<lambda>i. present ! i) (argsort (map (\<lambda>r. the (col r)) present)) @ missing)"

definition select_top ::
  "(rat list \<Rightarrow> nat list) \<Rightarrow> ('r \<Rightarrow> rat option) \<Rightarrow> int \<Rightarrow> 'r list \<Rightarrow> 'r list" where
  "select_top argsort col top_n df = py_slice (sort_values_desc argsort col df) 0 top_n"

subsection \<open>The scripts\<close>

text \<open>
  The notebooks fix the budget at \<^verbatim>\<open>1_000_000\<close> and the count at 50; both are
  parameters here.
\<close>

definition equal_weight_run ::
  "(string \<Rightarrow> (string \<rightharpoonup> quote_entry) option) \<Rightarrow> string list \<Rightarrow> rat
     \<Rightarrow> py_error + rat \<times> eq_row list" where
  "equal_weight_run get stocks portfolio_size =
     (case equal_weight_table get stocks of
        Inl e \<Rightarrow> Inl e
      | Inr df \<Rightarrow> allocate portfolio_size df)"

text \<open>
  The first strategy of the momentum notebook reads the first batch only
  (\<^verbatim>\<open>symbol_strings[:1]\<close>) and selects on the one-year return.
\<close>

definition momentum_run ::
  "(string \<Rightarrow> (string \<rightharpoonup> stats_entry) option) \<Rightarrow> (rat list \<Rightarrow> nat list) \<Rightarrow> string list \<Rightarrow> int
     \<Rightarrow> rat \<Rightarrow> py_error + rat \<times> mom_row list" where
  "momentum_run get argsort stocks top_n portfolio_size =
     (case symbol_strings stocks of
        Inl e \<Rightarrow> Inl e
      | Inr strs \<Rightarrow>
          (case build_table new_mom_row get (py_slice strs 0 1) [] of
             Inl e \<Rightarrow> Inl e
           | Inr df \<Rightarrow> allocate portfolio_size (select_top argsort one_year_return top_n df)))"

text \<open>
  The second strategy. \<open>on_null\<close> is the rest of the run on a Universe with a missing
  return, which the embedding of the ranking does not cover.
\<close>

definition hqm_run ::
  "(string \<Rightarrow> (string \<rightharpoonup> stats_entry) option) \<Rightarrow> scipy_formula
     \<Rightarrow> (hqm_row list \<Rightarrow> py_error + rat \<times> hqm_row list) \<Rightarrow> (rat list \<Rightarrow> nat list)
     \<Rightarrow> string list \<Rightarrow> int \<Rightarrow> rat \<Rightarrow> py_error + rat \<times> hqm_row list" where
  "hqm_run get formula on_null argsort stocks top_n portfolio_size =
     (case hqm_universe get stocks of
        Inl e \<Rightarrow> Inl e
      | Inr universe \<Rightarrow>
          (case calc_percentiles formula universe of
             None \<Rightarrow> on_null universe
           | Some ranked \<Rightarrow>
               (case calc_momentum_score ranked of
                  Inl e \<Rightarrow> Inl e
                | Inr scored \<Rightarrow>
                    allocate portfolio_size (select_top argsort momentum_score top_n scored))))"

section \<open>Properties\<close>

subsection \<open>Doubles\<close>

text \<open>
  The exponent brackets its argument; rounding moves a value by at most half a unit in
  the last place, keeps its sign, and leaves integers below \<open>2 ^ 53\<close> alone.
\<close>

lemma pow2_succ: "(2::rat) powi (k + 1) = 2 powi k * 2"
  by (simp add: power_int_add)

lemma pow2_pred: "(2::rat) powi (k - 1) = 2 powi k / 2"
  by (simp add: power_int_diff)

lemma pow2_pos: "0 < (2::rat) powi k"
  by (simp add: zero_less_power_int)

lemma pow2_less_cancel:
  assumes "(2::rat) powi a < 2 powi b"
  shows "a < b"
proof (rule ccontr)
  assume "\<not> a < b"
  then have "b \<le> a" by simp
  then have "(2::rat) powi b \<le> 2 powi a" by (rule power_int_increasing) simp
  with assms show False by simp
qed

lemma ilog2_bounds:
  "0 < x \<Longrightarrow> 2 powi (ilog2 x) \<le> x \<and> x < 2 powi (ilog2 x + 1)"
proof (induction x rule: ilog2.induct)
  case (1 x)
  show ?case
  proof (cases "2 \<le> x")
    case True
    then have eq: "ilog2 x = ilog2 (x / 2) + 1" by (subst ilog2.simps) simp
    from 1(1) [OF True] 1(3) have "2 powi (ilog2 (x / 2)) \<le> x / 2 \<and> x / 2 < 2 powi (ilog2 (x / 2) + 1)"
      by simp
    then show ?thesis unfolding eq pow2_succ by (simp add: field_simps)
  next
    case False
    show ?thesis
    proof (cases "x < 1")
      case True
      with False 1(3) have eq: "ilog2 x = ilog2 (x * 2) - 1" by (subst ilog2.simps) simp
      from 1(2) [OF False] True 1(3)
      have "2 powi (ilog2 (x * 2)) \<le> x * 2 \<and> x * 2 < 2 powi (ilog2 (x * 2) + 1)" by simp
      then show ?thesis unfolding eq pow2_succ by (simp add: pow2_pred field_simps)
    next
      case ge: False
      with False have eq: "ilog2 x = 0" by (subst ilog2.simps) simp
      show ?thesis unfolding eq using False ge by simp
    qed
  qed
qed

lemma rne_error: "\<bar>of_int (rne y) - y\<bar> \<le> 1 / 2"
proof -
  have "of_int \<lfloor>y\<rfloor> \<le> y" "y < of_int \<lfloor>y\<rfloor> + 1" by linarith+
  then show ?thesis by (auto simp: rne_def Let_def)
qed

lemma rne_nonneg: "0 \<le> y \<Longrightarrow> 0 \<le> rne y"
  by (auto simp: rne_def Let_def)

lemma rne_nonpos:
  assumes "y \<le> 0"
  shows "rne y \<le> 0"
proof (cases "y \<le> - 1")
  case True
  then have "\<lfloor>y\<rfloor> \<le> - 1" by (simp add: floor_le_iff)
  then show ?thesis by (auto simp: rne_def Let_def)
next
  case False
  show ?thesis
  proof (cases "y = 0")
    case True
    then show ?thesis by (simp add: rne_def)
  next
    case ne: False
    with False assms have "\<lfloor>y\<rfloor> = - 1" by (simp add: floor_eq_iff)
    then show ?thesis by (auto simp: rne_def Let_def)
  qed
qed

lemma rne_of_int: "rne (of_int m) = m"
  by (simp add: rne_def)

lemma to_double_error:
  assumes "x \<noteq> 0"
  shows "\<bar>to_double x - x\<bar> \<le> 2 powi (max (ilog2 \<bar>x\<bar>) (- 1022) - 53)"
proof -
  let ?e = "max (ilog2 \<bar>x\<bar>) (- 1022)"
  let ?ulp = "(2::rat) powi (?e - 52)"
  have ulp: "0 < ?ulp" by (rule pow2_pos)
  have "to_double x - x = (of_int (rne (x / ?ulp)) - x / ?ulp) * ?ulp"
    using assms ulp by (simp add: to_double_def Let_def field_simps)
  then have "\<bar>to_double x - x\<bar> = \<bar>of_int (rne (x / ?ulp)) - x / ?ulp\<bar> * ?ulp"
    using ulp by (simp add: abs_mult)
  also have "\<dots> \<le> 1 / 2 * ?ulp"
    using rne_error [of "x / ?ulp"] ulp by (simp only: mult_le_cancel_right_pos)
  also have "\<dots> = 2 powi (?e - 53)"
  proof -
    have "(2::rat) powi (?e - 53) = 2 powi ((?e - 52) - 1)" by simp
    also have "\<dots> = 2 powi (?e - 52) / 2" by (rule pow2_pred)
    finally show ?thesis by simp
  qed
  finally show ?thesis .
qed

lemma to_double_normal:
  assumes "2 powi (- 1022) \<le> \<bar>x\<bar>"
  shows "\<bar>to_double x - x\<bar> \<le> \<bar>x\<bar> / 2 ^ 53"
proof -
  have pos: "0 < \<bar>x\<bar>" using assms pow2_pos [of "- 1022"] by linarith
  then have nz: "x \<noteq> 0" by simp
  have b: "2 powi (ilog2 \<bar>x\<bar>) \<le> \<bar>x\<bar>" "\<bar>x\<bar> < 2 powi (ilog2 \<bar>x\<bar> + 1)"
    using ilog2_bounds [OF pos] by auto
  have "(2::rat) powi (- 1022) < 2 powi (ilog2 \<bar>x\<bar> + 1)" using assms b(2) by linarith
  then have "- 1022 < ilog2 \<bar>x\<bar> + 1" by (rule pow2_less_cancel)
  then have e: "max (ilog2 \<bar>x\<bar>) (- 1022) = ilog2 \<bar>x\<bar>" by simp
  have "\<bar>to_double x - x\<bar> \<le> 2 powi (ilog2 \<bar>x\<bar> - 53)"
    using to_double_error [OF nz] unfolding e .
  also have "\<dots> = 2 powi (ilog2 \<bar>x\<bar>) / 2 ^ 53"
    by (simp add: power_int_diff)
  also have "\<dots> \<le> \<bar>x\<bar> / 2 ^ 53"
    using b(1) by (simp add: divide_right_mono)
  finally show ?thesis .
qed


lemma to_double_zero: "to_double 0 = 0"
  by (simp add: to_double_def)

lemma to_double_nonneg: "0 \<le> x \<Longrightarrow> 0 \<le> to_double x"
  by (auto simp: to_double_def Let_def pow2_pos less_imp_le intro!: mult_nonneg_nonneg rne_nonneg
      divide_nonneg_pos)

lemma to_double_nonpos:
  assumes "x \<le> 0"
  shows "to_double x \<le> 0"
proof (cases "x = 0")
  case True
  then show ?thesis by (simp add: to_double_zero)
next
  case False
  let ?ulp = "(2::rat) powi (max (ilog2 \<bar>x\<bar>) (- 1022) - 52)"
  have ulp: "0 < ?ulp" by (rule pow2_pos)
  then have "x / ?ulp \<le> 0" using assms by (simp add: divide_le_0_iff)
  then have "rne (x / ?ulp) \<le> 0" by (rule rne_nonpos)
  then have "rat_of_int (rne (x / ?ulp)) \<le> 0" by simp
  then have "rat_of_int (rne (x / ?ulp)) * ?ulp \<le> 0"
    using ulp by (simp add: mult_le_0_iff)
  then show ?thesis using False by (simp add: to_double_def Let_def)
qed

lemma to_double_relative:
  assumes "2 powi (- 1022) \<le> x"
  shows "x * (1 - 1 / 2 ^ 53) \<le> to_double x" and "to_double x \<le> x * (1 + 1 / 2 ^ 53)"
proof -
  have pos: "0 < x" using assms pow2_pos [of "- 1022"] by linarith
  then have "2 powi (- 1022) \<le> \<bar>x\<bar>" using assms by simp
  from to_double_normal [OF this] pos have b: "\<bar>to_double x - x\<bar> \<le> x / 2 ^ 53" by simp
  have e1: "x * (1 - 1 / 2 ^ 53) = x - x / 2 ^ 53" by (simp add: algebra_simps)
  have e2: "x * (1 + 1 / 2 ^ 53) = x + x / 2 ^ 53" by (simp add: algebra_simps)
  show "x * (1 - 1 / 2 ^ 53) \<le> to_double x" unfolding e1 using b by linarith
  show "to_double x \<le> x * (1 + 1 / 2 ^ 53)" unfolding e2 using b by linarith
qed

lemma to_double_tiny:
  assumes "0 < x" "x < 2 powi (- 1022)"
  shows "to_double x \<le> x + 2 powi (- 1075)"
proof -
  have nz: "x \<noteq> 0" using assms by simp
  have "2 powi (ilog2 x) \<le> x" using ilog2_bounds [OF assms(1)] by simp
  then have "(2::rat) powi (ilog2 x) < 2 powi (- 1022)" using assms(2) by linarith
  then have "ilog2 x < - 1022" by (rule pow2_less_cancel)
  then have e: "max (ilog2 \<bar>x\<bar>) (- 1022) = - 1022" using assms(1) by simp
  have eq: "(- 1022 - 53 :: int) = - 1075" by simp
  have "\<bar>to_double x - x\<bar> \<le> 2 powi (- 1022 - 53)"
    using to_double_error [OF nz] unfolding e .
  then have "\<bar>to_double x - x\<bar> \<le> 2 powi (- 1075)" unfolding eq .
  then show ?thesis by linarith
qed

lemma to_double_of_int:
  assumes "\<bar>m\<bar> < 2 ^ 53"
  shows "to_double (of_int m) = of_int m"
proof (cases "m = 0")
  case True
  then show ?thesis by (simp add: to_double_zero)
next
  case False
  let ?x = "rat_of_int m"
  let ?e = "ilog2 \<bar>?x\<bar>"
  have pos: "0 < \<bar>?x\<bar>" using False by simp
  have one: "1 \<le> \<bar>?x\<bar>"
  proof -
    have "1 \<le> \<bar>m\<bar>" using False by simp
    then have "rat_of_int 1 \<le> rat_of_int \<bar>m\<bar>" by (simp only: of_int_le_iff)
    then show ?thesis by simp
  qed
  have lt: "\<bar>?x\<bar> < 2 ^ 53"
  proof -
    have "rat_of_int \<bar>m\<bar> < rat_of_int (2 ^ 53)" using assms by (simp only: of_int_less_iff)
    then show ?thesis by simp
  qed
  have b: "2 powi ?e \<le> \<bar>?x\<bar>" "\<bar>?x\<bar> < 2 powi (?e + 1)"
    using ilog2_bounds [OF pos] by auto
  have "(2::rat) powi 0 < 2 powi (?e + 1)" using one b(2) by simp
  then have lo: "0 \<le> ?e" using pow2_less_cancel [of 0 "?e + 1"] by simp
  have "(2::rat) powi ?e < 2 powi 53" using b(1) lt by simp
  then have hi: "?e \<le> 52" using pow2_less_cancel [of ?e 53] by simp
  let ?j = "nat (52 - ?e)"
  have e: "max ?e (- 1022) = ?e" using lo by simp
  have ulp: "(2::rat) powi (?e - 52) = 1 / 2 ^ ?j"
  proof -
    have "?e - 52 = - int ?j" using hi by simp
    then have "(2::rat) powi (?e - 52) = 2 powi (- int ?j)" by (simp only:)
    also have "\<dots> = 1 / 2 ^ ?j" by (simp only: power_int_minus_divide power_int_of_nat)
    finally show ?thesis .
  qed
  have "?x / (1 / 2 ^ ?j) = rat_of_int (m * 2 ^ ?j)" by simp
  then have "rne (?x / (1 / 2 ^ ?j)) = m * 2 ^ ?j" by (simp only: rne_of_int)
  then have "to_double ?x = rat_of_int (m * 2 ^ ?j) * (1 / 2 ^ ?j)"
    using False by (simp add: to_double_def Let_def e ulp del: of_int_mult)
  then show ?thesis by simp
qed

lemma to_double_of_nat: "n < 2 ^ 53 \<Longrightarrow> to_double (of_nat n) = of_nat n"
  using to_double_of_int [of "int n"] by simp

subsection \<open>Batcher\<close>

lemma py_slice_chunk:
  assumes "0 < k" "0 \<le> i"
  shows "py_slice L i (i + k) = take (nat k) (drop (nat i) L)"
proof -
  have a: "slice_index (length L) i = min (length L) (nat i)"
    using assms by (simp add: slice_index_def)
  have b: "slice_index (length L) (i + k) = min (length L) (nat i + nat k)"
    using assms by (simp add: slice_index_def nat_add_distrib)
  show ?thesis
    unfolding py_slice_def Let_def a b by (cases "length L \<le> nat i") (auto simp: min_def)
qed

lemma range_up_slices:
  assumes "0 < k" "0 \<le> i"
  shows "concat (map (\<lambda>j. py_slice L j (j + k)) (range_up i (int (length L)) k)) = drop (nat i) L"
  using assms
proof (induction i "int (length L)" k rule: range_up.induct)
  case (1 i step)
  show ?case
  proof (cases "i < int (length L)")
    case True
    have sl: "py_slice L i (i + step) = take (nat step) (drop (nat i) L)"
      using 1(2,3) by (rule py_slice_chunk)
    have dr: "drop (nat (i + step)) L = drop (nat step) (drop (nat i) L)"
      using 1(2,3) by (simp add: nat_add_distrib add.commute)
    have "concat (map (\<lambda>j. py_slice L j (j + step)) (range_up i (int (length L)) step))
        = py_slice L i (i + step)
          @ concat (map (\<lambda>j. py_slice L j (j + step)) (range_up (i + step) (int (length L)) step))"
      using True 1(2) by (subst range_up.simps) simp
    also have "\<dots> = take (nat step) (drop (nat i) L) @ drop (nat step) (drop (nat i) L)"
      using 1 True sl dr by simp
    finally show ?thesis by (simp only: append_take_drop_id)
  next
    case False
    with 1 show ?thesis by (subst range_up.simps) simp
  qed
qed

lemma range_up_len:
  assumes "0 < k" "0 \<le> i" "j \<in> set (range_up i (int (length L)) k)"
  shows "length (py_slice L j (j + k)) \<le> nat k \<and> py_slice L j (j + k) \<noteq> []"
  using assms
proof (induction i "int (length L)" k rule: range_up.induct)
  case (1 i step)
  show ?case
  proof (cases "i < int (length L)")
    case True
    have sl: "py_slice L i (i + step) = take (nat step) (drop (nat i) L)"
      using 1(2,3) by (rule py_slice_chunk)
    from 1(4) True 1(2) have "j = i \<or> j \<in> set (range_up (i + step) (int (length L)) step)"
      by (subst (asm) range_up.simps) simp
    then show ?thesis
    proof
      assume "j = i"
      with sl True 1(2,3) show ?thesis by auto
    next
      assume "j \<in> set (range_up (i + step) (int (length L)) step)"
      with 1 True show ?thesis by simp
    qed
  next
    case False
    with 1(4) show ?thesis by (subst (asm) range_up.simps) simp
  qed
qed


lemma range_down_empty: "0 \<le> stop \<Longrightarrow> range_down 0 stop step = []"
  by (subst range_down.simps) simp

lemma chunks_generator_pos:
  "0 < k \<Longrightarrow> chunks_generator L k
     = Inr (map (\<lambda>j. py_slice L j (j + k)) (range_up 0 (int (length L)) k))"
  by (simp add: chunks_generator_def py_range_def)

text \<open>
  C4. For a positive batch size \<open>k\<close> the batcher returns batches whose concatenation is
  the input list, in order; every batch has at most \<open>k\<close> symbols and at least one; the
  empty list gives no batch, and a non-empty list of at most \<open>k\<close> symbols gives the
  single batch that is the list itself.
\<close>

theorem chunks_generator_batches:
  assumes "0 < k"
  shows "\<exists>bs. chunks_generator L k = Inr bs \<and> concat bs = L
           \<and> (\<forall>b \<in> set bs. length b \<le> nat k \<and> b \<noteq> [])
           \<and> (L = [] \<longrightarrow> bs = [])
           \<and> (L \<noteq> [] \<and> int (length L) \<le> k \<longrightarrow> bs = [L])"
proof -
  let ?bs = "map (\<lambda>j. py_slice L j (j + k)) (range_up 0 (int (length L)) k)"
  have run: "chunks_generator L k = Inr ?bs"
    using assms by (rule chunks_generator_pos)
  have cover: "concat ?bs = L"
    using range_up_slices [OF assms, of 0 L] by simp
  have bound: "\<forall>b \<in> set ?bs. length b \<le> nat k \<and> b \<noteq> []"
  proof
    fix b assume "b \<in> set ?bs"
    then obtain j where j: "j \<in> set (range_up 0 (int (length L)) k)"
      and b: "b = py_slice L j (j + k)"
      by auto
    from range_up_len [OF assms _ j] b show "length b \<le> nat k \<and> b \<noteq> []"
      by simp
  qed
  have empty: "L = [] \<longrightarrow> ?bs = []"
    by (subst range_up.simps) simp
  have single: "L \<noteq> [] \<and> int (length L) \<le> k \<longrightarrow> ?bs = [L]"
  proof
    assume a: "L \<noteq> [] \<and> int (length L) \<le> k"
    have "range_up k (int (length L)) k = []"
      using a by (subst range_up.simps) simp
    then have "range_up 0 (int (length L)) k = [0]"
      using a assms by (subst range_up.simps) simp
    moreover have "length L \<le> nat k"
      using a by linarith
    then have "py_slice L 0 (0 + k) = L"
      using assms py_slice_chunk [of k 0 L] by simp
    ultimately show "?bs = [L]" by simp
  qed
  show ?thesis
    by (rule exI [of _ ?bs]) (intro conjI run cover bound empty single)
qed

theorem chunks_generator_batches_witness:
  "(0::int) < 2 \<and> chunks_generator [''A'', ''B'', ''C''] 2 = Inr [[''A'', ''B''], [''C'']]"
proof -
  have ev: "chunks_generator [''A'', ''B'', ''C''] 2 = Inr [[''A'', ''B''], [''C'']]"
    by code_simp
  from chunks_generator_batches [of 2 "[''A'', ''B'', ''C'']"]
  have "\<exists>bs. chunks_generator [''A'', ''B'', ''C''] 2 = Inr bs \<and> concat bs = [''A'', ''B'', ''C'']"
    by simp blast
  with ev show ?thesis by simp
qed

text \<open>
  C9 as stated fails: a negative batch size raises nothing. \<open>range(0, 2, -1)\<close> is
  empty, so the generator yields no batch and the caller sees an empty list of groups.
\<close>

theorem chunks_generator_negative_counterexample:
  "chunks_generator [''A'', ''B''] (- 1) = Inr []"
  by (simp add: chunks_generator_def py_range_def range_down.simps)

text \<open>
  C9, amended. A batch size of zero ends the run with the \<^verbatim>\<open>ValueError\<close> of
  \<^verbatim>\<open>range\<close> and no batch is produced; a negative batch size is not an error and
  gives the empty sequence of batches, whatever the list.
\<close>

theorem chunks_generator_nonpositive:
  assumes "k \<le> 0"
  shows "chunks_generator L k = (if k = 0 then Inl ValueError else Inr [])"
  using assms by (simp add: chunks_generator_def py_range_def range_down_empty)

theorem chunks_generator_nonpositive_witness:
  "(0::int) \<le> 0 \<and> chunks_generator [''A'', ''B''] 0 = Inl ValueError"
  using chunks_generator_nonpositive [of 0 "[''A'', ''B'']"] by simp

subsection \<open>Allocator\<close>

lemma to_double_abs_error:
  "\<bar>to_double x - x\<bar> \<le> max (\<bar>x\<bar> / 2 ^ 53) (2 powi (- 1075))"
proof (cases "2 powi (- 1022) \<le> \<bar>x\<bar>")
  case True
  from to_double_normal [OF this] show ?thesis by (rule max.coboundedI1)
next
  case False
  show ?thesis
  proof (cases "x = 0")
    case True
    have "0 \<le> (2::rat) powi (- 1075)" using pow2_pos [of "- 1075"] by simp
    then have "\<bar>to_double x - x\<bar> \<le> 2 powi (- 1075)" unfolding True to_double_zero by simp
    then show ?thesis by (rule max.coboundedI2)
  next
    case nz: False
    then have pos: "0 < \<bar>x\<bar>" by simp
    have "2 powi (ilog2 \<bar>x\<bar>) \<le> \<bar>x\<bar>" using ilog2_bounds [OF pos] by simp
    then have "(2::rat) powi (ilog2 \<bar>x\<bar>) < 2 powi (- 1022)" using False by linarith
    then have "ilog2 \<bar>x\<bar> < - 1022" by (rule pow2_less_cancel)
    then have e: "max (ilog2 \<bar>x\<bar>) (- 1022) = - 1022" by simp
    have eq: "(- 1022 - 53 :: int) = - 1075" by simp
    have "\<bar>to_double x - x\<bar> \<le> 2 powi (- 1022 - 53)"
      using to_double_error [OF nz] unfolding e .
    then have "\<bar>to_double x - x\<bar> \<le> 2 powi (- 1075)" unfolding eq .
    then show ?thesis by (rule max.coboundedI2)
  qed
qed

lemma not_overflows_small:
  assumes "\<bar>x\<bar> \<le> 2 ^ 64"
  shows "\<not> overflows x"
proof -
  have "\<bar>x\<bar> / 2 ^ 53 \<le> 2 ^ 64" using assms by (simp add: field_simps)
  moreover have "(2::rat) powi (- 1075) \<le> 2 powi 64" by (rule power_int_increasing) simp_all
  then have "(2::rat) powi (- 1075) \<le> 2 ^ 64" by simp
  ultimately have "\<bar>to_double x - x\<bar> \<le> 2 ^ 64"
    using to_double_abs_error [of x] by (simp add: max_def split: if_splits)
  then have "\<bar>to_double x\<bar> \<le> 2 ^ 64 + 2 ^ 64" using assms by linarith
  also have "\<dots> < (2::rat) ^ 1024" by simp
  finally show ?thesis by (simp add: overflows_def)
qed

lemma floor_rat_numeral_div:
  "\<lfloor>numeral a / numeral b :: rat\<rfloor> = numeral a div numeral b"
  using floor_divide_of_int_eq [of "numeral a" "numeral b", where ?'a = rat] by simp

lemma floor_rat_neg_numeral_div:
  "\<lfloor>- numeral a / numeral b :: rat\<rfloor> = - numeral a div numeral b"
  using floor_divide_of_int_eq [of "- numeral a" "numeral b", where ?'a = rat] by simp

lemma overflows_zero: "\<not> overflows 0"
  by (rule not_overflows_small) simp

lemma to_double_numeral:
  "numeral k < (2::int) ^ 53 \<Longrightarrow> to_double (numeral k) = numeral k"
  using to_double_of_int [of "numeral k"] by simp

lemma to_double_neg_numeral:
  "numeral k < (2::int) ^ 53 \<Longrightarrow> to_double (- numeral k) = - numeral k"
  using to_double_of_int [of "- numeral k"] by simp

lemma to_double_one: "to_double 1 = 1"
  using to_double_of_int [of 1] by simp

lemma calc_shares_Inr:
  "calc_shares ps df = Inr df' \<Longrightarrow>
     df' = map (\<lambda>r. r\<lparr>num_of_shares_to_buy := Some \<lfloor>to_double (ps / stock_price r)\<rfloor>\<rparr>) df"
  by (induction df arbitrary: df') (auto split: if_splits sum.splits)

lemma calc_shares_eq:
  "\<forall>r \<in> set df. stock_price r \<noteq> 0 \<Longrightarrow>
     calc_shares ps df
       = (if \<exists>r \<in> set df. overflows (ps / stock_price r) then Inl OverflowError
          else Inr (map (\<lambda>r. r\<lparr>num_of_shares_to_buy :=
                                 Some \<lfloor>to_double (ps / stock_price r)\<rfloor>\<rparr>) df))"
  by (induction df) auto

lemma allocate_Inr:
  "allocate B df = Inr (ps, df') \<Longrightarrow>
     df \<noteq> [] \<and> ps = to_double (B / of_nat (length df))
     \<and> df' = map (\<lambda>r. r\<lparr>num_of_shares_to_buy := Some \<lfloor>to_double (ps / stock_price r)\<rfloor>\<rparr>) df"
  by (auto simp: allocate_def Let_def split: if_splits sum.splits dest: calc_shares_Inr)

lemma allocate_eq:
  assumes "df \<noteq> []" "\<forall>r \<in> set df. stock_price r \<noteq> 0"
  shows "allocate B df
     = (if overflows (B / of_nat (length df))
           \<or> (\<exists>r \<in> set df. overflows (to_double (B / of_nat (length df)) / stock_price r))
        then Inl OverflowError
        else Inr (to_double (B / of_nat (length df)),
          map (\<lambda>r. r\<lparr>num_of_shares_to_buy :=
                  Some \<lfloor>to_double (to_double (B / of_nat (length df)) / stock_price r)\<rfloor>\<rparr>) df))"
  using assms by (simp add: allocate_def Let_def calc_shares_eq)

lemma rounded_floor_times_le:
  fixes p q :: rat
  assumes "0 < p" "0 \<le> q"
  shows "0 \<le> \<lfloor>to_double (q / p)\<rfloor>"
    and "of_int \<lfloor>to_double (q / p)\<rfloor> * p \<le> q * (1 + 1 / 2 ^ 53)"
proof -
  let ?x = "q / p"
  have x0: "0 \<le> ?x" using assms by simp
  then have nn: "0 \<le> to_double ?x" by (simp add: to_double_nonneg)
  then show "0 \<le> \<lfloor>to_double ?x\<rfloor>" by simp
  have "of_int \<lfloor>to_double ?x\<rfloor> \<le> ?x * (1 + 1 / 2 ^ 53)"
  proof (cases "2 powi (- 1022) \<le> ?x")
    case True
    have "of_int \<lfloor>to_double ?x\<rfloor> \<le> to_double ?x" by (rule of_int_floor_le)
    also have "\<dots> \<le> ?x * (1 + 1 / 2 ^ 53)" using True by (rule to_double_relative(2))
    finally show ?thesis .
  next
    case False
    then have small: "?x < 2 powi (- 1022)" by simp
    have "to_double ?x \<le> ?x + 2 powi (- 1075)"
    proof (cases "?x = 0")
      case True
      have "0 \<le> (2::rat) powi (- 1075)" using pow2_pos [of "- 1075"] by simp
      then show ?thesis unfolding True to_double_zero by simp
    next
      case False
      with x0 have "0 < ?x" by linarith
      then show ?thesis using small by (rule to_double_tiny)
    qed
    moreover have "(2::rat) powi (- 1022) \<le> 2 powi (- 1)" by (rule power_int_increasing) simp_all
    moreover have "(2::rat) powi (- 1075) \<le> 2 powi (- 1)" by (rule power_int_increasing) simp_all
    moreover have "(2::rat) powi (- 1) = 1 / 2" by simp
    ultimately have "to_double ?x < 1" using small by linarith
    with nn have "\<lfloor>to_double ?x\<rfloor> = 0" by (simp add: floor_eq_iff)
    moreover have "0 \<le> ?x * (1 + 1 / 2 ^ 53)" using x0 by simp
    ultimately show ?thesis by simp
  qed
  then have "of_int \<lfloor>to_double ?x\<rfloor> * p \<le> ?x * (1 + 1 / 2 ^ 53) * p"
    using assms(1) by (simp only: mult_le_cancel_right_pos)
  also have "\<dots> = q * (1 + 1 / 2 ^ 53)" using assms(1) by simp
  finally show "of_int \<lfloor>to_double ?x\<rfloor> * p \<le> q * (1 + 1 / 2 ^ 53)" .
qed

text \<open>
  C3 as stated fails on the doubles. With a budget of 1.0 and one row priced at the double
  0.1, the quotient \<^verbatim>\<open>1.0 / 0.1\<close> rounds to 10.0, so the row gets 10 shares; the exact
  quotient is below 10, its floor is 9, and 10 shares at that price cost more than the
  position size of 1.0.
\<close>

theorem allocate_overspend_counterexample:
  "allocate 1
     [\<lparr>ticker = ''X'', stock_price = to_double (1 / 10), num_of_shares_to_buy = None,
       one_year_return = Some (1 / 2)\<rparr>]
   = Inr (1,
     [\<lparr>ticker = ''X'', stock_price = to_double (1 / 10), num_of_shares_to_buy = Some 10,
       one_year_return = Some (1 / 2)\<rparr>])
   \<and> to_double (1 / 10) = 3602879701896397 / 36028797018963968
   \<and> \<lfloor>1 / to_double (1 / 10)\<rfloor> = 9
   \<and> 1 < rat_of_int 10 * to_double (1 / 10)"
proof -
  have d: "to_double (1 / 10) = 3602879701896397 / 36028797018963968" by code_simp
  have q: "to_double (36028797018963968 / 3602879701896397) = 10" by code_simp
  show ?thesis
    by (simp add: allocate_def d q to_double_one not_overflows_small floor_rat_numeral_div)
qed

text \<open>
  C3, amended. For a non-empty table with positive prices and a positive budget, the
  position size is the double nearest to the budget divided by the number of rows of the
  table the allocator is given (in the scripts the table after selection). Unless a
  quotient is beyond the doubles, which ends the run with \<^verbatim>\<open>OverflowError\<close>, the
  allocator succeeds, every row's share count is the floor of the double nearest to
  position size over price, it is not negative, and shares times price exceeds the
  position size by at most the factor \<open>1 + 2 powi (- 53)\<close>. For X at 10 and Y at 20 with
  budget 100 the position size is 50 and the shares are 5 and 2.
\<close>

theorem allocate_rounded_shares:
  "(df \<noteq> [] \<and> 0 < B \<and> (\<forall>r \<in> set df. 0 < stock_price r) \<longrightarrow>
      allocate B df
        = (if overflows (B / of_nat (length df))
              \<or> (\<exists>r \<in> set df. overflows (to_double (B / of_nat (length df)) / stock_price r))
           then Inl OverflowError
           else Inr (to_double (B / of_nat (length df)),
             map (\<lambda>r. r\<lparr>num_of_shares_to_buy :=
                     Some \<lfloor>to_double (to_double (B / of_nat (length df)) / stock_price r)\<rfloor>\<rparr>) df))
      \<and> (\<forall>r \<in> set df.
             0 \<le> \<lfloor>to_double (to_double (B / of_nat (length df)) / stock_price r)\<rfloor>
           \<and> of_int \<lfloor>to_double (to_double (B / of_nat (length df)) / stock_price r)\<rfloor>
                 * stock_price r
               \<le> to_double (B / of_nat (length df)) * (1 + 1 / 2 ^ 53)))
   \<and> allocate 100
        [\<lparr>ticker = ''X'', stock_price = 10, num_of_shares_to_buy = None,
          one_year_return = Some (1 / 2)\<rparr>,
         \<lparr>ticker = ''Y'', stock_price = 20, num_of_shares_to_buy = None,
          one_year_return = Some (- 1 / 10)\<rparr>]
      = Inr (50,
        [\<lparr>ticker = ''X'', stock_price = 10, num_of_shares_to_buy = Some 5,
          one_year_return = Some (1 / 2)\<rparr>,
         \<lparr>ticker = ''Y'', stock_price = 20, num_of_shares_to_buy = Some 2,
          one_year_return = Some (- 1 / 10)\<rparr>])"
proof (rule conjI)
  let ?ps = "to_double (B / of_nat (length df))"
  show "df \<noteq> [] \<and> 0 < B \<and> (\<forall>r \<in> set df. 0 < stock_price r) \<longrightarrow>
      allocate B df
        = (if overflows (B / of_nat (length df))
              \<or> (\<exists>r \<in> set df. overflows (?ps / stock_price r))
           then Inl OverflowError
           else Inr (?ps,
             map (\<lambda>r. r\<lparr>num_of_shares_to_buy :=
                     Some \<lfloor>to_double (?ps / stock_price r)\<rfloor>\<rparr>) df))
      \<and> (\<forall>r \<in> set df.
             0 \<le> \<lfloor>to_double (?ps / stock_price r)\<rfloor>
           \<and> of_int \<lfloor>to_double (?ps / stock_price r)\<rfloor> * stock_price r
               \<le> ?ps * (1 + 1 / 2 ^ 53))"
  proof
    assume a: "df \<noteq> [] \<and> 0 < B \<and> (\<forall>r \<in> set df. 0 < stock_price r)"
    then have nz: "\<forall>r \<in> set df. stock_price r \<noteq> 0" by auto
    have run: "allocate B df
        = (if overflows (B / of_nat (length df))
              \<or> (\<exists>r \<in> set df. overflows (?ps / stock_price r))
           then Inl OverflowError
           else Inr (?ps,
             map (\<lambda>r. r\<lparr>num_of_shares_to_buy :=
                     Some \<lfloor>to_double (?ps / stock_price r)\<rfloor>\<rparr>) df))"
      using a nz by (intro allocate_eq) auto
    have "0 \<le> B / of_nat (length df)" using a by simp
    then have ps: "0 \<le> ?ps" by (rule to_double_nonneg)
    have rows: "\<forall>r \<in> set df.
             0 \<le> \<lfloor>to_double (?ps / stock_price r)\<rfloor>
           \<and> of_int \<lfloor>to_double (?ps / stock_price r)\<rfloor> * stock_price r
               \<le> ?ps * (1 + 1 / 2 ^ 53)"
    proof
      fix r assume "r \<in> set df"
      then have p: "0 < stock_price r" using a by blast
      from rounded_floor_times_le [OF p ps]
      show "0 \<le> \<lfloor>to_double (?ps / stock_price r)\<rfloor>
           \<and> of_int \<lfloor>to_double (?ps / stock_price r)\<rfloor> * stock_price r
               \<le> ?ps * (1 + 1 / 2 ^ 53)"
        by (rule conjI)
    qed
    show "allocate B df
        = (if overflows (B / of_nat (length df))
              \<or> (\<exists>r \<in> set df. overflows (?ps / stock_price r))
           then Inl OverflowError
           else Inr (?ps,
             map (\<lambda>r. r\<lparr>num_of_shares_to_buy :=
                     Some \<lfloor>to_double (?ps / stock_price r)\<rfloor>\<rparr>) df))
      \<and> (\<forall>r \<in> set df.
             0 \<le> \<lfloor>to_double (?ps / stock_price r)\<rfloor>
           \<and> of_int \<lfloor>to_double (?ps / stock_price r)\<rfloor> * stock_price r
               \<le> ?ps * (1 + 1 / 2 ^ 53))"
      by (rule conjI [OF run rows])
  qed
next
  have v: "to_double (5 / 2) = 5 / 2" by code_simp
  show "allocate 100
        [\<lparr>ticker = ''X'', stock_price = 10, num_of_shares_to_buy = None,
          one_year_return = Some (1 / 2)\<rparr>,
         \<lparr>ticker = ''Y'', stock_price = 20, num_of_shares_to_buy = None,
          one_year_return = Some (- 1 / 10)\<rparr>]
      = Inr (50,
        [\<lparr>ticker = ''X'', stock_price = 10, num_of_shares_to_buy = Some 5,
          one_year_return = Some (1 / 2)\<rparr>,
         \<lparr>ticker = ''Y'', stock_price = 20, num_of_shares_to_buy = Some 2,
          one_year_return = Some (- 1 / 10)\<rparr>])"
    by (simp add: allocate_def to_double_numeral not_overflows_small v floor_rat_numeral_div)
qed

lemma allocate_example:
  "allocate 90
        [\<lparr>ticker = ''A'', stock_price = 7, num_of_shares_to_buy = None, market_cap = Some 1000\<rparr>,
         \<lparr>ticker = ''B'', stock_price = 4, num_of_shares_to_buy = None, market_cap = None\<rparr>]
      = Inr (45,
        [\<lparr>ticker = ''A'', stock_price = 7, num_of_shares_to_buy = Some 6, market_cap = Some 1000\<rparr>,
         \<lparr>ticker = ''B'', stock_price = 4, num_of_shares_to_buy = Some 11, market_cap = None\<rparr>])"
proof -
  have v: "to_double (45 / 7) = 3618963986279863 / 562949953421312"
    "to_double (45 / 4) = 45 / 4" by code_simp+
  show ?thesis
    by (simp add: allocate_def to_double_numeral not_overflows_small v floor_rat_numeral_div)
qed

theorem allocate_rounded_shares_witness:
  "[\<lparr>ticker = ''A'', stock_price = 7, num_of_shares_to_buy = None, market_cap = Some 1000\<rparr>,
    \<lparr>ticker = ''B'', stock_price = 4, num_of_shares_to_buy = None, market_cap = None\<rparr>] \<noteq> []
   \<and> (0::rat) < 90 \<and> (0::rat) < 7 \<and> (0::rat) < 4
   \<and> allocate 90
        [\<lparr>ticker = ''A'', stock_price = 7, num_of_shares_to_buy = None, market_cap = Some 1000\<rparr>,
         \<lparr>ticker = ''B'', stock_price = 4, num_of_shares_to_buy = None, market_cap = None\<rparr>]
      = Inr (45,
        [\<lparr>ticker = ''A'', stock_price = 7, num_of_shares_to_buy = Some 6, market_cap = Some 1000\<rparr>,
         \<lparr>ticker = ''B'', stock_price = 4, num_of_shares_to_buy = Some 11, market_cap = None\<rparr>])
   \<and> rat_of_int \<lfloor>to_double (45 / 7)\<rfloor> * 7 \<le> 45 * (1 + 1 / 2 ^ 53)
   \<and> rat_of_int \<lfloor>to_double (45 / 4)\<rfloor> * 4 \<le> 45 * (1 + 1 / 2 ^ 53)"
proof -
  let ?df = "[\<lparr>ticker = ''A'', stock_price = 7, num_of_shares_to_buy = None, market_cap = Some 1000\<rparr>,
    \<lparr>ticker = ''B'', stock_price = 4, num_of_shares_to_buy = None, market_cap = None\<rparr>]"
  have hyp: "?df \<noteq> [] \<and> (0::rat) < 90 \<and> (\<forall>r \<in> set ?df. 0 < stock_price r)" by simp
  have ps: "to_double (90 / of_nat (length ?df)) = 45" by (simp add: to_double_numeral)
  from allocate_rounded_shares [of ?df 90, THEN conjunct1, rule_format, OF hyp, THEN conjunct2]
  have "\<forall>r \<in> set ?df.
             0 \<le> \<lfloor>to_double (to_double (90 / of_nat (length ?df)) / stock_price r)\<rfloor>
           \<and> of_int \<lfloor>to_double (to_double (90 / of_nat (length ?df)) / stock_price r)\<rfloor>
                 * stock_price r
               \<le> to_double (90 / of_nat (length ?df)) * (1 + 1 / 2 ^ 53)" .
  then have "rat_of_int \<lfloor>to_double (45 / 7)\<rfloor> * 7 \<le> 45 * (1 + 1 / 2 ^ 53)
     \<and> rat_of_int \<lfloor>to_double (45 / 4)\<rfloor> * 4 \<le> 45 * (1 + 1 / 2 ^ 53)"
    unfolding ps by simp
  with allocate_example show ?thesis by simp
qed


text \<open>
  C10. When the allocator succeeds, the table keeps its length and the order of its rows;
  every row is the old row with \<^verbatim>\<open>num_of_shares_to_buy\<close> assigned, so the ticker, the
  price and all remaining columns (\<open>row.more\<close>: the market capitalisation of the
  equal-weight table, the returns, percentiles and score of the momentum tables) are
  unchanged.
\<close>

theorem allocate_frame:
  assumes "allocate B df = Inr (ps, df')"
  shows "length df' = length df
       \<and> (\<forall>i < length df.
             df' ! i = (df ! i)\<lparr>num_of_shares_to_buy := num_of_shares_to_buy (df' ! i)\<rparr>)
       \<and> map ticker df' = map ticker df
       \<and> map stock_price df' = map stock_price df
       \<and> map row.more df' = map row.more df"
proof -
  from assms
  have df': "df' = map (\<lambda>r. r\<lparr>num_of_shares_to_buy :=
                                Some \<lfloor>to_double (ps / stock_price r)\<rfloor>\<rparr>) df"
    by (simp add: allocate_Inr)
  show ?thesis unfolding df' by (simp add: comp_def)
qed

theorem allocate_frame_witness:
  "allocate 100
     [\<lparr>ticker = ''X'', stock_price = 10, num_of_shares_to_buy = None,
       one_year_return = Some (1 / 2), one_year_return_percentile = Some 1,
       six_month_return = Some (1 / 4), six_month_return_percentile = Some 1,
       three_month_return = None, three_month_return_percentile = None,
       one_month_return = Some 0, one_month_return_percentile = Some 1,
       momentum_score = Some (3 / 8)\<rparr>]
   = Inr (100,
     [\<lparr>ticker = ''X'', stock_price = 10, num_of_shares_to_buy = Some 10,
       one_year_return = Some (1 / 2), one_year_return_percentile = Some 1,
       six_month_return = Some (1 / 4), six_month_return_percentile = Some 1,
       three_month_return = None, three_month_return_percentile = None,
       one_month_return = Some 0, one_month_return_percentile = Some 1,
       momentum_score = Some (3 / 8)\<rparr>])
   \<and> map ticker
     [\<lparr>ticker = ''X'', stock_price = 10, num_of_shares_to_buy = Some 10,
       one_year_return = Some (1 / 2), one_year_return_percentile = Some 1,
       six_month_return = Some (1 / 4), six_month_return_percentile = Some 1,
       three_month_return = None, three_month_return_percentile = None,
       one_month_return = Some 0, one_month_return_percentile = Some (1::rat),
       momentum_score = Some (3 / 8)\<rparr>] = [''X'']"
proof -
  have run: "allocate 100
     [\<lparr>ticker = ''X'', stock_price = 10, num_of_shares_to_buy = None,
       one_year_return = Some (1 / 2), one_year_return_percentile = Some 1,
       six_month_return = Some (1 / 4), six_month_return_percentile = Some 1,
       three_month_return = None, three_month_return_percentile = None,
       one_month_return = Some 0, one_month_return_percentile = Some 1,
       momentum_score = Some (3 / 8)\<rparr>]
   = Inr (100,
     [\<lparr>ticker = ''X'', stock_price = 10, num_of_shares_to_buy = Some 10,
       one_year_return = Some (1 / 2), one_year_return_percentile = Some 1,
       six_month_return = Some (1 / 4), six_month_return_percentile = Some 1,
       three_month_return = None, three_month_return_percentile = None,
       one_month_return = Some 0, one_month_return_percentile = Some 1,
       momentum_score = Some (3 / 8)\<rparr>])"
    by (simp add: allocate_def to_double_numeral not_overflows_small)
  from allocate_frame [OF run] run show ?thesis by simp
qed

lemma equal_weight_table_example:
  "equal_weight_table
     (\<lambda>s. Some [''X'' \<mapsto> \<lparr>latestPrice = 10, marketCap = Some 1000\<rparr>]) [''X'']
     = Inr [\<lparr>ticker = ''X'', stock_price = 10, num_of_shares_to_buy = None,
              market_cap = Some 1000\<rparr>]"
  by (simp add: equal_weight_table_def symbol_strings_def
      chunks_generator_def py_range_def range_up.simps py_slice_def slice_index_def
      new_eq_row_def)

text \<open>
  C8 as stated fails: with a budget of zero the equal-weight script fetches the quote of
  X, builds its table and ends normally, with zero shares.
\<close>

theorem zero_budget_counterexample:
  "equal_weight_run
     (\<lambda>s. Some [''X'' \<mapsto> \<lparr>latestPrice = 10, marketCap = Some 1000\<rparr>]) [''X''] 0
   = Inr (0, [\<lparr>ticker = ''X'', stock_price = 10, num_of_shares_to_buy = Some 0,
              market_cap = Some 1000\<rparr>])"
  by (simp add: equal_weight_run_def equal_weight_table_example allocate_def to_double_zero
      overflows_zero)

text \<open>
  C8, amended. The scripts do not validate the budget. The table is fetched and built
  first, and any error of that stage ends the run whatever the budget. With a budget
  \<open>B \<le> 0\<close>, a non-empty table and positive prices the run then ends as the allocator
  does: with \<^verbatim>\<open>OverflowError\<close> when a quotient is beyond the doubles, and otherwise
  normally, with the rounded position size and the floor of the rounded quotient as the
  shares of each row. No share count is positive, and with a budget of zero the run ends
  normally with zero shares in every row.
\<close>

theorem nonpositive_budget_allocates:
  assumes "B \<le> 0"
  shows "(\<forall>e. equal_weight_table get stocks = Inl e \<longrightarrow> equal_weight_run get stocks B = Inl e)
       \<and> (\<forall>df. equal_weight_table get stocks = Inr df \<and> df \<noteq> []
                \<and> (\<forall>r \<in> set df. 0 < stock_price r) \<longrightarrow>
             equal_weight_run get stocks B
               = (if overflows (B / of_nat (length df))
                     \<or> (\<exists>r \<in> set df.
                           overflows (to_double (B / of_nat (length df)) / stock_price r))
                  then Inl OverflowError
                  else Inr (to_double (B / of_nat (length df)),
                    map (\<lambda>r. r\<lparr>num_of_shares_to_buy :=
                       Some \<lfloor>to_double (to_double (B / of_nat (length df)) / stock_price r)\<rfloor>\<rparr>)
                      df))
             \<and> (\<forall>r \<in> set df.
                   \<lfloor>to_double (to_double (B / of_nat (length df)) / stock_price r)\<rfloor> \<le> 0)
             \<and> (B = 0 \<longrightarrow>
                   equal_weight_run get stocks B
                     = Inr (0, map (\<lambda>r. r\<lparr>num_of_shares_to_buy := Some 0\<rparr>) df)))"
proof -
  have errors: "\<forall>e. equal_weight_table get stocks = Inl e \<longrightarrow> equal_weight_run get stocks B = Inl e"
    by (simp add: equal_weight_run_def)
  have allocated: "\<forall>df. equal_weight_table get stocks = Inr df \<and> df \<noteq> []
                \<and> (\<forall>r \<in> set df. 0 < stock_price r) \<longrightarrow>
             equal_weight_run get stocks B
               = (if overflows (B / of_nat (length df))
                     \<or> (\<exists>r \<in> set df.
                           overflows (to_double (B / of_nat (length df)) / stock_price r))
                  then Inl OverflowError
                  else Inr (to_double (B / of_nat (length df)),
                    map (\<lambda>r. r\<lparr>num_of_shares_to_buy :=
                       Some \<lfloor>to_double (to_double (B / of_nat (length df)) / stock_price r)\<rfloor>\<rparr>)
                      df))
             \<and> (\<forall>r \<in> set df.
                   \<lfloor>to_double (to_double (B / of_nat (length df)) / stock_price r)\<rfloor> \<le> 0)
             \<and> (B = 0 \<longrightarrow>
                   equal_weight_run get stocks B
                     = Inr (0, map (\<lambda>r. r\<lparr>num_of_shares_to_buy := Some 0\<rparr>) df))"
  proof (intro allI impI)
    fix df :: "eq_row list"
    let ?ps = "to_double (B / of_nat (length df))"
    assume a: "equal_weight_table get stocks = Inr df \<and> df \<noteq> []
                \<and> (\<forall>r \<in> set df. 0 < stock_price r)"
    then have nz: "\<forall>r \<in> set df. stock_price r \<noteq> 0" by auto
    have "equal_weight_run get stocks B = allocate B df"
      using a by (simp add: equal_weight_run_def)
    also have "\<dots> = (if overflows (B / of_nat (length df))
                     \<or> (\<exists>r \<in> set df. overflows (?ps / stock_price r))
                  then Inl OverflowError
                  else Inr (?ps,
                    map (\<lambda>r. r\<lparr>num_of_shares_to_buy :=
                       Some \<lfloor>to_double (?ps / stock_price r)\<rfloor>\<rparr>) df))"
      using a nz by (intro allocate_eq) auto
    finally have run: "equal_weight_run get stocks B
               = (if overflows (B / of_nat (length df))
                     \<or> (\<exists>r \<in> set df. overflows (?ps / stock_price r))
                  then Inl OverflowError
                  else Inr (?ps,
                    map (\<lambda>r. r\<lparr>num_of_shares_to_buy :=
                       Some \<lfloor>to_double (?ps / stock_price r)\<rfloor>\<rparr>) df))" .
    have "B / of_nat (length df) \<le> 0"
      using assms by (simp add: divide_le_0_iff)
    then have le: "?ps \<le> 0" by (rule to_double_nonpos)
    have nonpos: "\<forall>r \<in> set df. \<lfloor>to_double (?ps / stock_price r)\<rfloor> \<le> 0"
    proof
      fix r assume "r \<in> set df"
      then have "0 < stock_price r" using a by blast
      with le have "?ps / stock_price r \<le> 0" by (simp add: divide_le_0_iff)
      then have "to_double (?ps / stock_price r) \<le> 0" by (rule to_double_nonpos)
      then show "\<lfloor>to_double (?ps / stock_price r)\<rfloor> \<le> 0" by (simp add: floor_le_zero)
    qed
    have zero: "B = 0 \<longrightarrow>
                   equal_weight_run get stocks B
                     = Inr (0, map (\<lambda>r. r\<lparr>num_of_shares_to_buy := Some 0\<rparr>) df)"
    proof
      assume "B = 0"
      then show "equal_weight_run get stocks B
                     = Inr (0, map (\<lambda>r. r\<lparr>num_of_shares_to_buy := Some 0\<rparr>) df)"
        unfolding run by (simp add: to_double_zero overflows_zero)
    qed
    show "equal_weight_run get stocks B
               = (if overflows (B / of_nat (length df))
                     \<or> (\<exists>r \<in> set df. overflows (?ps / stock_price r))
                  then Inl OverflowError
                  else Inr (?ps,
                    map (\<lambda>r. r\<lparr>num_of_shares_to_buy :=
                       Some \<lfloor>to_double (?ps / stock_price r)\<rfloor>\<rparr>) df))
             \<and> (\<forall>r \<in> set df. \<lfloor>to_double (?ps / stock_price r)\<rfloor> \<le> 0)
             \<and> (B = 0 \<longrightarrow>
                   equal_weight_run get stocks B
                     = Inr (0, map (\<lambda>r. r\<lparr>num_of_shares_to_buy := Some 0\<rparr>) df))"
      by (intro conjI run nonpos zero)
  qed
  show ?thesis by (rule conjI [OF errors allocated])
qed

theorem nonpositive_budget_allocates_witness:
  "(- 30 :: rat) \<le> 0
   \<and> equal_weight_run
     (\<lambda>s. Some [''X'' \<mapsto> \<lparr>latestPrice = 10, marketCap = Some 1000\<rparr>]) [''X''] (- 30)
   = Inr (- 30, [\<lparr>ticker = ''X'', stock_price = 10, num_of_shares_to_buy = Some (- 3),
              market_cap = Some 1000\<rparr>])"
proof -
  have neg: "(- 30 :: rat) \<le> 0" by simp
  from nonpositive_budget_allocates [OF neg,
      of "\<lambda>s. Some [''X'' \<mapsto> \<lparr>latestPrice = 10, marketCap = Some 1000\<rparr>]" "[''X'']"]
    equal_weight_table_example
  show ?thesis by (simp add: to_double_neg_numeral not_overflows_small)
qed

subsection \<open>PercentileRanker\<close>

text \<open>
  The three roundings of a percentile: the product or quotient by 50, the second
  operation with \<open>n\<close>, and the division by 100. Each moves the value by a factor between
  \<open>1 - 2 powi (- 53)\<close> and \<open>1 + 2 powi (- 53)\<close>.
\<close>

lemma normal_if_large: "1 / 2 ^ 60 \<le> x \<Longrightarrow> 2 powi (- 1022) \<le> (x::rat)"
proof -
  assume a: "1 / 2 ^ 60 \<le> x"
  have "(2::rat) powi (- 1022) \<le> 2 powi (- 60)" by (rule power_int_increasing) simp_all
  also have "(2::rat) powi (- 60) = 1 / 2 ^ 60" by (simp add: power_int_minus_divide)
  finally show ?thesis using a by linarith
qed

lemma round_between:
  assumes "1 / 2 ^ 60 \<le> L" "L \<le> y" "y \<le> U"
  shows "L * (1 - 1 / 2 ^ 53) \<le> to_double y" and "to_double y \<le> U * (1 + 1 / 2 ^ 53)"
proof -
  have "1 / 2 ^ 60 \<le> y" using assms by linarith
  then have n: "2 powi (- 1022) \<le> y" by (rule normal_if_large)
  have "L * (1 - 1 / 2 ^ 53) \<le> y * (1 - 1 / 2 ^ 53)"
    using assms(2) by (rule mult_right_mono) simp
  also have "\<dots> \<le> to_double y" using n by (rule to_double_relative(1))
  finally show "L * (1 - 1 / 2 ^ 53) \<le> to_double y" .
  have "to_double y \<le> y * (1 + 1 / 2 ^ 53)" using n by (rule to_double_relative(2))
  also have "\<dots> \<le> U * (1 + 1 / 2 ^ 53)"
    using assms(3) by (rule mult_right_mono) simp
  finally show "to_double y \<le> U * (1 + 1 / 2 ^ 53)" .
qed

lemma percent_tail:
  fixes m :: rat
  assumes m: "1 / 2 ^ 53 \<le> m"
    and lo: "100 * m * (1 - 1 / 2 ^ 53) \<le> y" and hi: "y \<le> 100 * m * (1 + 1 / 2 ^ 53)"
  shows "m * (1 - 1 / 2 ^ 53) ^ 3 \<le> to_double (to_double y / 100)"
    and "to_double (to_double y / 100) \<le> m * (1 + 1 / 2 ^ 53) ^ 3"
proof -
  define a :: rat where "a = 1 - 1 / 2 ^ 53"
  define b :: rat where "b = 1 + 1 / 2 ^ 53"
  have a: "1 / 2 \<le> a" "0 \<le> a" "1 / 2 \<le> a * a" by (simp_all add: a_def)
  have m0: "0 \<le> m" using m by (simp add: order_trans [rotated])
  have "1 / 2 ^ 53 * (1 / 2) \<le> m * a"
    using m a(1) by (intro mult_mono) simp_all
  then have n1: "1 / 2 ^ 60 \<le> 100 * m * a"
    using m0 a(2) by (simp add: mult_nonneg_nonneg) 
  have s2lo: "100 * m * a * a \<le> to_double y" and s2hi: "to_double y \<le> 100 * m * b * b"
    using round_between [OF n1 lo [folded a_def] hi [folded b_def]]
    by (simp_all add: a_def b_def)
  have "1 / 2 ^ 53 * (1 / 2) \<le> m * (a * a)"
    using m a(3) by (intro mult_mono) simp_all
  then have n2: "1 / 2 ^ 60 \<le> m * a * a" by (simp add: mult.assoc)
  have lo3: "m * a * a \<le> to_double y / 100" using s2lo by simp
  have hi3: "to_double y / 100 \<le> m * b * b" using s2hi by simp
  have "m * a * a * a \<le> to_double (to_double y / 100)"
    using round_between(1) [OF n2 lo3 hi3] by (simp add: a_def)
  then show "m * (1 - 1 / 2 ^ 53) ^ 3 \<le> to_double (to_double y / 100)"
    by (simp add: a_def power3_eq_cube mult.assoc)
  have "to_double (to_double y / 100) \<le> m * b * b * b"
    using round_between(2) [OF n2 lo3 hi3] by (simp add: b_def)
  then show "to_double (to_double y / 100) \<le> m * (1 + 1 / 2 ^ 53) ^ 3"
    by (simp add: b_def power3_eq_cube mult.assoc)
qed


lemma count_le_split:
  fixes v :: rat
  shows "length (filter (\<lambda>x. x \<le> v) col) = length (filter (\<lambda>x. x < v) col) + count_list col v"
  by (induction col) auto

lemma count_list_pos: "v \<in> set col \<Longrightarrow> 1 \<le> count_list col v"
  using count_list_0_iff [of col v] by (cases "count_list col v") auto

lemma rank_sum_bounds:
  fixes v :: rat
  assumes "v \<in> set col"
  shows "2 \<le> length (filter (\<lambda>x. x \<le> v) col) + length (filter (\<lambda>x. x < v) col) + 1"
    and "length (filter (\<lambda>x. x \<le> v) col) + length (filter (\<lambda>x. x < v) col) + 1 \<le> 2 * length col"
    and "length (filter (\<lambda>x. x < v) col) < length (filter (\<lambda>x. x \<le> v) col)"
proof -
  have c: "1 \<le> count_list col v" using assms by (rule count_list_pos)
  have le: "length (filter (\<lambda>x. x \<le> v) col) \<le> length col" by (rule length_filter_le)
  show "2 \<le> length (filter (\<lambda>x. x \<le> v) col) + length (filter (\<lambda>x. x < v) col) + 1"
    using c by (simp add: count_le_split)
  show "length (filter (\<lambda>x. x \<le> v) col) + length (filter (\<lambda>x. x < v) col) + 1 \<le> 2 * length col"
    using c le by (simp add: count_le_split)
  show "length (filter (\<lambda>x. x < v) col) < length (filter (\<lambda>x. x \<le> v) col)"
    using c by (simp add: count_le_split)
qed

lemma percentileofscore_eq:
  assumes "v \<in> set col" "length col < 2 ^ 52"
  shows "percentileofscore formula col v
     = Some (case formula of
          Before_1_9 \<Rightarrow>
            to_double (to_double (of_nat (length (filter (\<lambda>x. x \<le> v) col)
                                    + length (filter (\<lambda>x. x < v) col) + 1) * 50)
                       / of_nat (length col))
        | Since_1_9 \<Rightarrow>
            to_double (of_nat (length (filter (\<lambda>x. x \<le> v) col)
                         + length (filter (\<lambda>x. x < v) col) + 1)
                       * to_double (50 / of_nat (length col))))"
proof -
  let ?k = "length (filter (\<lambda>x. x \<le> v) col) + length (filter (\<lambda>x. x < v) col) + 1"
  have ne: "length col \<noteq> 0" using assms(1) by auto
  have "?k \<le> 2 * length col" using assms(1) by (rule rank_sum_bounds(2))
  also have "\<dots> < 2 * 2 ^ 52" using assms(2) by simp
  finally have "?k < 2 ^ 53" by simp
  then have k: "to_double (of_nat ?k) = of_nat ?k" by (rule to_double_of_nat)
  have "length col < 2 ^ 53" using assms(2) by (rule less_trans) simp
  then have n: "to_double (of_nat (length col)) = of_nat (length col)" by (rule to_double_of_nat)
  have less: "length (filter (\<lambda>x. x < v) col) < length (filter (\<lambda>x. x \<le> v) col)"
    using assms(1) by (rule rank_sum_bounds(3))
  show ?thesis
    unfolding percentileofscore_def Let_def using ne less k n
    by (cases formula) (simp_all del: of_nat_add of_nat_Suc)
qed

lemma percentile_cell_bounds:
  assumes "v \<in> set col" "length col < 2 ^ 52"
  shows "\<exists>p. percentile_cell formula col v = Some p
     \<and> of_nat (length (filter (\<lambda>x. x \<le> v) col) + length (filter (\<lambda>x. x < v) col) + 1)
           / of_nat (2 * length col) * (1 - 1 / 2 ^ 53) ^ 3 \<le> p
     \<and> p \<le> of_nat (length (filter (\<lambda>x. x \<le> v) col) + length (filter (\<lambda>x. x < v) col) + 1)
           / of_nat (2 * length col) * (1 + 1 / 2 ^ 53) ^ 3"
proof -
  let ?k = "length (filter (\<lambda>x. x \<le> v) col) + length (filter (\<lambda>x. x < v) col) + 1"
  define K :: rat where "K = of_nat ?k"
  define N :: rat where "N = of_nat (length col)"
  define m :: rat where "m = K / (2 * N)"
  have k2: "2 \<le> K"
  proof -
    have "2 \<le> ?k" using assms(1) by (rule rank_sum_bounds(1))
    then have "rat_of_nat 2 \<le> rat_of_nat ?k" by (simp only: of_nat_le_iff)
    then show ?thesis by (simp add: K_def)
  qed
  have n1: "1 \<le> N"
  proof -
    have "1 \<le> length col" using assms(1) by (cases col) auto
    then have "rat_of_nat 1 \<le> rat_of_nat (length col)" by (simp only: of_nat_le_iff)
    then show ?thesis by (simp add: N_def)
  qed
  have n2: "N \<le> 2 ^ 52"
  proof -
    have "rat_of_nat (length col) \<le> rat_of_nat (2 ^ 52)"
      using assms(2) by (simp only: of_nat_le_iff)
    then show ?thesis by (simp add: N_def)
  qed
  have npos: "0 < N" using n1 by simp
  have hm: "100 * m = K * 50 / N" using npos by (simp add: m_def)
  have "1 / N \<le> m" using k2 npos by (simp add: m_def field_simps)
  moreover have "1 / 2 ^ 52 \<le> 1 / N" using n2 npos by (simp add: field_simps)
  ultimately have m53: "1 / 2 ^ 53 \<le> m" by simp
  define y where "y = (case formula of
      Before_1_9 \<Rightarrow> to_double (K * 50) / N
    | Since_1_9 \<Rightarrow> K * to_double (50 / N))"
  have yb: "100 * m * (1 - 1 / 2 ^ 53) \<le> y \<and> y \<le> 100 * m * (1 + 1 / 2 ^ 53)"
    proof (cases formula)
      case Before_1_9
      have big: "1 / 2 ^ 60 \<le> K * 50" using k2 by simp
      have n0: "0 \<le> N" using npos by simp
      have "K * 50 * (1 - 1 / 2 ^ 53) / N \<le> to_double (K * 50) / N"
        by (rule divide_right_mono [OF round_between(1) [OF big order_refl order_refl] n0])
      moreover have "to_double (K * 50) / N \<le> K * 50 * (1 + 1 / 2 ^ 53) / N"
        by (rule divide_right_mono [OF round_between(2) [OF big order_refl order_refl] n0])
      moreover have "100 * m * (1 - 1 / 2 ^ 53) = K * 50 * (1 - 1 / 2 ^ 53) / N"
        unfolding hm by simp
      moreover have "100 * m * (1 + 1 / 2 ^ 53) = K * 50 * (1 + 1 / 2 ^ 53) / N"
        unfolding hm by simp
      ultimately show ?thesis unfolding y_def Before_1_9 by simp
    next
      case Since_1_9
      have "1 / 2 ^ 52 \<le> 1 / N" using n2 npos by (simp add: field_simps)
      then have big: "1 / 2 ^ 60 \<le> 50 / N" using npos by (simp add: field_simps)
      have k0: "0 \<le> K" using k2 by simp
      have "K * (50 / N * (1 - 1 / 2 ^ 53)) \<le> K * to_double (50 / N)"
        by (rule mult_left_mono [OF round_between(1) [OF big order_refl order_refl] k0])
      moreover have "K * to_double (50 / N) \<le> K * (50 / N * (1 + 1 / 2 ^ 53))"
        by (rule mult_left_mono [OF round_between(2) [OF big order_refl order_refl] k0])
      moreover have "100 * m * (1 - 1 / 2 ^ 53) = K * (50 / N * (1 - 1 / 2 ^ 53))"
        unfolding hm by simp
      moreover have "100 * m * (1 + 1 / 2 ^ 53) = K * (50 / N * (1 + 1 / 2 ^ 53))"
        unfolding hm by simp
      ultimately show ?thesis unfolding y_def Since_1_9 by simp
    qed
  have ylo: "100 * m * (1 - 1 / 2 ^ 53) \<le> y" and yhi: "y \<le> 100 * m * (1 + 1 / 2 ^ 53)"
    using yb by simp_all
  have cell: "percentile_cell formula col v = Some (to_double (to_double y / 100))"
    unfolding percentile_cell_def percentileofscore_eq [OF assms] y_def K_def N_def
    by (cases formula) simp_all
  have mm: "rat_of_nat ?k / rat_of_nat (2 * length col) = m"
    by (simp add: m_def K_def N_def)
  show ?thesis
    unfolding mm using cell percent_tail [OF m53 ylo yhi] by blast
qed


lemma rank_eq_weak_iff:
  fixes v :: rat
  assumes "v \<in> set col"
  shows "(of_nat (length (filter (\<lambda>x. x \<le> v) col) + length (filter (\<lambda>x. x < v) col) + 1) / of_nat (2 * length col)
          = (of_nat (length (filter (\<lambda>x. x \<le> v) col)) :: rat) / of_nat (length col))
        \<longleftrightarrow> count_list col v = 1"
proof -
  let ?le = "length (filter (\<lambda>x. x \<le> v) col)"
  let ?lt = "length (filter (\<lambda>x. x < v) col)"
  have n: "0 < length col" using assms by (cases col) auto
  have "(of_nat ?le :: rat) / of_nat (length col) = of_nat (2 * ?le) / of_nat (2 * length col)"
    using n by simp
  then have "(of_nat (?le + ?lt + 1) / of_nat (2 * length col) = (of_nat ?le :: rat) / of_nat (length col))
      \<longleftrightarrow> (of_nat (?le + ?lt + 1) :: rat) / of_nat (2 * length col) = of_nat (2 * ?le) / of_nat (2 * length col)"
    by (simp only:)
  also have "\<dots> \<longleftrightarrow> (of_nat (?le + ?lt + 1) :: rat) = of_nat (2 * ?le)"
    using n by (simp only: divide_cancel_right) simp
  also have "\<dots> \<longleftrightarrow> ?le + ?lt + 1 = 2 * ?le"
    by (simp only: of_nat_eq_iff)
  also have "\<dots> \<longleftrightarrow> count_list col v = 1"
    by (simp add: count_le_split) linarith
  finally show ?thesis .
qed

lemma rank_at_max:
  fixes v :: rat
  assumes "v \<in> set col" "v = Max (set col)"
  shows "rat_of_nat (length (filter (\<lambda>x. x \<le> v) col) + length (filter (\<lambda>x. x < v) col) + 1)
           / of_nat (2 * length col)
         = 1 - of_nat (count_list col v - 1) / of_nat (2 * length col)"
proof -
  let ?le = "length (filter (\<lambda>x. x \<le> v) col)"
  let ?lt = "length (filter (\<lambda>x. x < v) col)"
  let ?c = "count_list col v"
  have n: "0 < length col" using assms(1) by (cases col) auto
  have "\<forall>x \<in> set col. x \<le> v" using assms(2) by simp
  then have "filter (\<lambda>x. x \<le> v) col = col" by (simp only: filter_True)
  then have le: "?le = length col" by simp
  have c: "1 \<le> ?c" using assms(1) by (rule count_list_pos)
  have split: "?le = ?lt + ?c" by (rule count_le_split)
  have "?le + ?lt + 1 + (?c - 1) = 2 * length col"
    using le c split by linarith
  then have "rat_of_nat (?le + ?lt + 1) + of_nat (?c - 1) = of_nat (2 * length col)"
    by (simp only: of_nat_add [symmetric])
  then have "rat_of_nat (?le + ?lt + 1) = of_nat (2 * length col) - of_nat (?c - 1)"
    by linarith
  then show ?thesis using n by (simp add: diff_divide_distrib)
qed

lemma rank_ratio_bounds:
  fixes v :: rat
  assumes "v \<in> set col"
  shows "1 / of_nat (length col)
           \<le> rat_of_nat (length (filter (\<lambda>x. x \<le> v) col) + length (filter (\<lambda>x. x < v) col) + 1)
               / of_nat (2 * length col)"
    and "rat_of_nat (length (filter (\<lambda>x. x \<le> v) col) + length (filter (\<lambda>x. x < v) col) + 1)
               / of_nat (2 * length col) \<le> 1"
proof -
  let ?k = "length (filter (\<lambda>x. x \<le> v) col) + length (filter (\<lambda>x. x < v) col) + 1"
  have n: "0 < rat_of_nat (length col)" using assms by (cases col) auto
  have "rat_of_nat 2 \<le> rat_of_nat ?k"
    using rank_sum_bounds(1) [OF assms] by (simp only: of_nat_le_iff)
  then have k2: "2 \<le> rat_of_nat ?k" by simp
  have "rat_of_nat ?k \<le> rat_of_nat (2 * length col)"
    using rank_sum_bounds(2) [OF assms] by (simp only: of_nat_le_iff)
  then have kn: "rat_of_nat ?k \<le> 2 * rat_of_nat (length col)" by simp
  have e: "rat_of_nat (2 * length col) = 2 * rat_of_nat (length col)" by simp
  show "1 / of_nat (length col) \<le> rat_of_nat ?k / of_nat (2 * length col)"
    unfolding e using k2 n by (simp add: field_simps)
  show "rat_of_nat ?k / of_nat (2 * length col) \<le> 1"
    unfolding e using kn n by (simp add: field_simps)
qed

lemma those_map_Some:
  "\<forall>x \<in> set xs. f x = Some (g x) \<Longrightarrow> those (map f xs) = Some (map g xs)"
  by (induction xs) auto

lemma calc_percentiles_present:
  assumes "\<forall>r \<in> set df. one_year_return r \<noteq> None \<and> six_month_return r \<noteq> None
             \<and> three_month_return r \<noteq> None \<and> one_month_return r \<noteq> None"
  shows "calc_percentiles formula df
     = Some (map (\<lambda>r. r
         \<lparr>one_year_return_percentile :=
            percentile_cell formula (map (\<lambda>r. the (one_year_return r)) df) (the (one_year_return r)),
          six_month_return_percentile :=
            percentile_cell formula (map (\<lambda>r. the (six_month_return r)) df) (the (six_month_return r)),
          three_month_return_percentile :=
            percentile_cell formula (map (\<lambda>r. the (three_month_return r)) df) (the (three_month_return r)),
          one_month_return_percentile :=
            percentile_cell formula (map (\<lambda>r. the (one_month_return r)) df) (the (one_month_return r))\<rparr>) df)"
proof -
  define g where "g = (\<lambda>r :: hqm_row. (the (one_year_return r), the (six_month_return r),
                          the (three_month_return r), the (one_month_return r)))"
  have "\<forall>r \<in> set df. returns r = Some (g r)"
    using assms by (auto simp: returns_def g_def)
  then have t: "those (map returns df) = Some (map g df)" by (rule those_map_Some)
  have z: "zip df (map g df) = map (\<lambda>r. (r, g r)) df"
    by (induction df) auto
  have "calc_percentiles formula df
      = Some (map (percentile_row formula (map g df)) (map (\<lambda>r. (r, g r)) df))"
    by (simp only: calc_percentiles_def t z option.case)
  then show ?thesis
    by (simp add: percentile_row_def g_def comp_def)
qed

lemma double_values:
  "to_double (1 / 10) = 3602879701896397 / 36028797018963968"
  "to_double (1 / 5) = 3602879701896397 / 18014398509481984"
  "to_double (3 / 10) = 5404319552844595 / 18014398509481984"
  "to_double (175 / 2) = 175 / 2" "to_double (7 / 8) = 7 / 8" "to_double (25 / 2) = 25 / 2"
  "to_double (1 / 4) = 1 / 4" "to_double (3 / 4) = 3 / 4" "to_double (1 / 2) = 1 / 2"
  "to_double (125 / 2) = 125 / 2" "to_double (5 / 8) = 5 / 8"
  by code_simp+

lemma scenario_b:
  "percentile_cell formula
     [to_double (1 / 10), to_double (2 / 10), to_double (3 / 10), to_double (3 / 10)]
     (to_double (1 / 10)) = Some (1 / 4)"
  "percentile_cell formula
     [to_double (1 / 10), to_double (2 / 10), to_double (3 / 10), to_double (3 / 10)]
     (to_double (3 / 10)) = Some (7 / 8)"
  by (cases formula;
      simp add: percentile_cell_def percentileofscore_def double_values to_double_numeral)+

text \<open>
  C1 as stated fails on a tie. In the column 0.1, 0.2, 0.3, 0.3 all four rows are at or
  below 0.3, so the claim's fraction is 4/4; with either SciPy formula the computed
  percentile of 0.3 is 0.875, the mean of the ranks 3 and 4 over 4.
\<close>

theorem percentile_tie_counterexample:
  "percentile_cell Before_1_9
     [to_double (1 / 10), to_double (2 / 10), to_double (3 / 10), to_double (3 / 10)]
     (to_double (3 / 10)) = Some (7 / 8)
   \<and> percentile_cell Since_1_9
     [to_double (1 / 10), to_double (2 / 10), to_double (3 / 10), to_double (3 / 10)]
     (to_double (3 / 10)) = Some (7 / 8)
   \<and> rat_of_nat (length (filter (\<lambda>x. x \<le> to_double (3 / 10))
         [to_double (1 / 10), to_double (2 / 10), to_double (3 / 10), to_double (3 / 10)])) / 4 = 1"
  using scenario_b(2) [of Before_1_9] scenario_b(2) [of Since_1_9] by (simp add: double_values)

text \<open>
  C1, amended. Let \<open>v\<close> be a value of a column of \<open>n\<close> numbers, \<open>n\<close> below \<open>2 ^ 52\<close>, and
  \<open>m\<close> = (rows below \<open>v\<close> + rows at or below \<open>v\<close> + 1) / (2n), the mean rank of the rows
  tied at \<open>v\<close> over \<open>n\<close>. With either SciPy formula the computed percentile is a double
  within three roundings of \<open>m\<close>: it lies between \<open>m (1 - 2 powi (- 53)) ^ 3\<close> and
  \<open>m (1 + 2 powi (- 53)) ^ 3\<close>. \<open>m\<close> is (rows at or below \<open>v\<close>) / n exactly when \<open>v\<close> occurs
  once. On a table whose four return columns hold numbers the ranking loop ends normally
  and has written, in every row and for every period, this percentile of the row's return
  within the period's return column, and nothing else. In the column 0.1, 0.2, 0.3, 0.3
  the percentile of 0.1 is 0.25 and that of 0.3 is 0.875.
\<close>

theorem percentile_mean_rank:
  "(v \<in> set col \<and> length col < 2 ^ 52 \<longrightarrow>
      (\<exists>p. percentile_cell formula col v = Some p
         \<and> of_nat (length (filter (\<lambda>x. x \<le> v) col) + length (filter (\<lambda>x. x < v) col) + 1)
               / of_nat (2 * length col) * (1 - 1 / 2 ^ 53) ^ 3 \<le> p
         \<and> p \<le> of_nat (length (filter (\<lambda>x. x \<le> v) col) + length (filter (\<lambda>x. x < v) col) + 1)
               / of_nat (2 * length col) * (1 + 1 / 2 ^ 53) ^ 3)
      \<and> ((of_nat (length (filter (\<lambda>x. x \<le> v) col) + length (filter (\<lambda>x. x < v) col) + 1)
               / of_nat (2 * length col)
           = (of_nat (length (filter (\<lambda>x. x \<le> v) col)) :: rat) / of_nat (length col))
          \<longleftrightarrow> count_list col v = 1))
   \<and> ((\<forall>r \<in> set df. one_year_return r \<noteq> None \<and> six_month_return r \<noteq> None
             \<and> three_month_return r \<noteq> None \<and> one_month_return r \<noteq> None) \<longrightarrow>
       calc_percentiles formula df
         = Some (map (\<lambda>r. r
             \<lparr>one_year_return_percentile :=
                percentile_cell formula (map (\<lambda>r. the (one_year_return r)) df) (the (one_year_return r)),
              six_month_return_percentile :=
                percentile_cell formula (map (\<lambda>r. the (six_month_return r)) df) (the (six_month_return r)),
              three_month_return_percentile :=
                percentile_cell formula (map (\<lambda>r. the (three_month_return r)) df) (the (three_month_return r)),
              one_month_return_percentile :=
                percentile_cell formula (map (\<lambda>r. the (one_month_return r)) df) (the (one_month_return r))\<rparr>) df))
   \<and> percentile_cell formula
        [to_double (1 / 10), to_double (2 / 10), to_double (3 / 10), to_double (3 / 10)]
        (to_double (1 / 10)) = Some (1 / 4)
   \<and> percentile_cell formula
        [to_double (1 / 10), to_double (2 / 10), to_double (3 / 10), to_double (3 / 10)]
        (to_double (3 / 10)) = Some (7 / 8)"
proof (intro conjI impI)
  assume a: "v \<in> set col \<and> length col < 2 ^ 52"
  then have v: "v \<in> set col" and n: "length col < 2 ^ 52" by simp_all
  show "\<exists>p. percentile_cell formula col v = Some p
         \<and> of_nat (length (filter (\<lambda>x. x \<le> v) col) + length (filter (\<lambda>x. x < v) col) + 1)
               / of_nat (2 * length col) * (1 - 1 / 2 ^ 53) ^ 3 \<le> p
         \<and> p \<le> of_nat (length (filter (\<lambda>x. x \<le> v) col) + length (filter (\<lambda>x. x < v) col) + 1)
               / of_nat (2 * length col) * (1 + 1 / 2 ^ 53) ^ 3"
    using v n by (rule percentile_cell_bounds)
  show "(of_nat (length (filter (\<lambda>x. x \<le> v) col) + length (filter (\<lambda>x. x < v) col) + 1)
               / of_nat (2 * length col)
           = (of_nat (length (filter (\<lambda>x. x \<le> v) col)) :: rat) / of_nat (length col))
          \<longleftrightarrow> count_list col v = 1"
    using v by (rule rank_eq_weak_iff)
next
  assume "\<forall>r \<in> set df. one_year_return r \<noteq> None \<and> six_month_return r \<noteq> None
             \<and> three_month_return r \<noteq> None \<and> one_month_return r \<noteq> None"
  then show "calc_percentiles formula df
         = Some (map (\<lambda>r. r
             \<lparr>one_year_return_percentile :=
                percentile_cell formula (map (\<lambda>r. the (one_year_return r)) df) (the (one_year_return r)),
              six_month_return_percentile :=
                percentile_cell formula (map (\<lambda>r. the (six_month_return r)) df) (the (six_month_return r)),
              three_month_return_percentile :=
                percentile_cell formula (map (\<lambda>r. the (three_month_return r)) df) (the (three_month_return r)),
              one_month_return_percentile :=
                percentile_cell formula (map (\<lambda>r. the (one_month_return r)) df) (the (one_month_return r))\<rparr>) df)"
    by (rule calc_percentiles_present)
next
  show "percentile_cell formula
        [to_double (1 / 10), to_double (2 / 10), to_double (3 / 10), to_double (3 / 10)]
        (to_double (1 / 10)) = Some (1 / 4)"
    by (rule scenario_b)
  show "percentile_cell formula
        [to_double (1 / 10), to_double (2 / 10), to_double (3 / 10), to_double (3 / 10)]
        (to_double (3 / 10)) = Some (7 / 8)"
    by (rule scenario_b)
qed

lemma percentile_cell_example:
  "percentile_cell Since_1_9 [1, 2, 2, 5] 2 = Some (5 / 8)"
  by (simp add: percentile_cell_def percentileofscore_def double_values to_double_numeral)

theorem percentile_mean_rank_witness:
  "(2::rat) \<in> set [1, 2, 2, 5] \<and> length [1, 2, 2, 5 :: rat] < 2 ^ 52
   \<and> percentile_cell Since_1_9 [1, 2, 2, 5] 2 = Some (5 / 8)
   \<and> rat_of_nat (3 + 1 + 1) / rat_of_nat (2 * 4) * (1 - 1 / 2 ^ 53) ^ 3 \<le> 5 / 8
   \<and> 5 / 8 \<le> rat_of_nat (3 + 1 + 1) / rat_of_nat (2 * 4) * (1 + 1 / 2 ^ 53) ^ 3
   \<and> count_list [1, 2, 2, 5 :: rat] 2 = 2
   \<and> calc_percentiles Since_1_9
        [\<lparr>ticker = ''A'', stock_price = 10, num_of_shares_to_buy = None,
          one_year_return = Some 2, one_year_return_percentile = None,
          six_month_return = Some (1 / 2), six_month_return_percentile = None,
          three_month_return = Some 1, three_month_return_percentile = None,
          one_month_return = Some (- 1), one_month_return_percentile = None,
          momentum_score = None\<rparr>,
         \<lparr>ticker = ''B'', stock_price = 20, num_of_shares_to_buy = None,
          one_year_return = Some 1, one_year_return_percentile = None,
          six_month_return = Some (1 / 2), six_month_return_percentile = None,
          three_month_return = Some 2, three_month_return_percentile = None,
          one_month_return = Some 0, one_month_return_percentile = None,
          momentum_score = None\<rparr>]
      = Some
        [\<lparr>ticker = ''A'', stock_price = 10, num_of_shares_to_buy = None,
          one_year_return = Some 2, one_year_return_percentile = Some 1,
          six_month_return = Some (1 / 2), six_month_return_percentile = Some (3 / 4),
          three_month_return = Some 1, three_month_return_percentile = Some (1 / 2),
          one_month_return = Some (- 1), one_month_return_percentile = Some (1 / 2),
          momentum_score = None\<rparr>,
         \<lparr>ticker = ''B'', stock_price = 20, num_of_shares_to_buy = None,
          one_year_return = Some 1, one_year_return_percentile = Some (1 / 2),
          six_month_return = Some (1 / 2), six_month_return_percentile = Some (3 / 4),
          three_month_return = Some 2, three_month_return_percentile = Some 1,
          one_month_return = Some 0, one_month_return_percentile = Some 1,
          momentum_score = None\<rparr>]"
proof -
  let ?df = "[\<lparr>ticker = ''A'', stock_price = 10, num_of_shares_to_buy = None,
          one_year_return = Some 2, one_year_return_percentile = None,
          six_month_return = Some (1 / 2), six_month_return_percentile = None,
          three_month_return = Some 1, three_month_return_percentile = None,
          one_month_return = Some (- 1), one_month_return_percentile = None,
          momentum_score = None\<rparr>,
         \<lparr>ticker = ''B'', stock_price = 20, num_of_shares_to_buy = None,
          one_year_return = Some 1, one_year_return_percentile = None,
          six_month_return = Some (1 / 2), six_month_return_percentile = None,
          three_month_return = Some 2, three_month_return_percentile = None,
          one_month_return = Some 0, one_month_return_percentile = None,
          momentum_score = None\<rparr>] :: hqm_row list"
  note inst = percentile_mean_rank [of 2 "[1, 2, 2, 5]" Since_1_9 ?df]
  have hyp: "(2::rat) \<in> set [1, 2, 2, 5] \<and> length [1, 2, 2, 5 :: rat] < 2 ^ 52" by simp
  have cnts: "length (filter (\<lambda>x. x \<le> 2) [1, 2, 2, 5 :: rat]) = 3"
    "length (filter (\<lambda>x. x < 2) [1, 2, 2, 5 :: rat]) = 1" "length [1, 2, 2, 5 :: rat] = 4"
    by simp_all
  from inst [THEN conjunct1, rule_format, OF hyp, THEN conjunct1]
  obtain p where "percentile_cell Since_1_9 [1, 2, 2, 5] 2 = Some p"
    and "rat_of_nat (3 + 1 + 1) / rat_of_nat (2 * 4) * (1 - 1 / 2 ^ 53) ^ 3 \<le> p"
    and "p \<le> rat_of_nat (3 + 1 + 1) / rat_of_nat (2 * 4) * (1 + 1 / 2 ^ 53) ^ 3"
    unfolding cnts by blast
  moreover from this(1) have "p = 5 / 8" unfolding percentile_cell_example by simp
  ultimately
  have bounds: "rat_of_nat (3 + 1 + 1) / rat_of_nat (2 * 4) * (1 - 1 / 2 ^ 53) ^ 3 \<le> 5 / 8
     \<and> 5 / 8 \<le> rat_of_nat (3 + 1 + 1) / rat_of_nat (2 * 4) * (1 + 1 / 2 ^ 53) ^ 3"
    by (simp only: simp_thms)
  from inst [THEN conjunct1, rule_format, OF hyp, THEN conjunct2]
  have cnt: "count_list [1, 2, 2, 5 :: rat] 2 = 2" by simp
  have present: "\<forall>r \<in> set ?df. one_year_return r \<noteq> None \<and> six_month_return r \<noteq> None
             \<and> three_month_return r \<noteq> None \<and> one_month_return r \<noteq> None"
    by (simp del: not_None_eq)
  from inst [THEN conjunct2, THEN conjunct1, THEN mp, OF present]
  have tbl: "calc_percentiles Since_1_9 ?df
      = Some
        [\<lparr>ticker = ''A'', stock_price = 10, num_of_shares_to_buy = None,
          one_year_return = Some 2, one_year_return_percentile = Some 1,
          six_month_return = Some (1 / 2), six_month_return_percentile = Some (3 / 4),
          three_month_return = Some 1, three_month_return_percentile = Some (1 / 2),
          one_month_return = Some (- 1), one_month_return_percentile = Some (1 / 2),
          momentum_score = None\<rparr>,
         \<lparr>ticker = ''B'', stock_price = 20, num_of_shares_to_buy = None,
          one_year_return = Some 1, one_year_return_percentile = Some (1 / 2),
          six_month_return = Some (1 / 2), six_month_return_percentile = Some (3 / 4),
          three_month_return = Some 2, three_month_return_percentile = Some 1,
          one_month_return = Some 0, one_month_return_percentile = Some 1,
          momentum_score = None\<rparr>]"
    by (simp add: percentile_cell_def percentileofscore_def double_values to_double_numeral
        to_double_one)
  show ?thesis
    by (intro conjI hyp [THEN conjunct1] hyp [THEN conjunct2] percentile_cell_example
        bounds [THEN conjunct1] bounds [THEN conjunct2] cnt tbl)
qed

lemma percentile_cell_sole: "percentile_cell formula [v] v = Some 1"
  by (cases formula)
     (simp_all add: percentile_cell_def percentileofscore_def to_double_numeral to_double_one)

lemma percentile_cell_sole_max:
  assumes "v \<in> set col" "v = Max (set col)" "count_list col v = 1" "length col < 2 ^ 46"
  shows "percentile_cell Before_1_9 col v = Some 1"
proof -
  let ?le = "length (filter (\<lambda>x. x \<le> v) col)"
  let ?lt = "length (filter (\<lambda>x. x < v) col)"
  have pos: "0 < length col" using assms(1) by (cases col) auto
  have "\<forall>x \<in> set col. x \<le> v" using assms(2) by simp
  then have "filter (\<lambda>x. x \<le> v) col = col" by (simp only: filter_True)
  then have le: "?le = length col" by simp
  have "?le = ?lt + count_list col v" by (rule count_le_split)
  then have k: "?le + ?lt + 1 = 2 * length col" using le assms(3) by linarith
  have "length col < 2 ^ 52" using assms(4) by (rule less_trans) simp
  note eq = percentileofscore_eq [OF assms(1) this, of Before_1_9]
  have "100 * length col < 100 * 2 ^ 46" using assms(4) by simp
  also have "\<dots> < (2::nat) ^ 53" by simp
  finally have "to_double (of_nat (100 * length col)) = of_nat (100 * length col)"
    by (rule to_double_of_nat)
  then have x: "to_double (rat_of_nat (2 * length col) * 50) = 100 * of_nat (length col)"
    by (simp add: mult.commute)
  have n0: "rat_of_nat (length col) \<noteq> 0" using pos by simp
  have "percentileofscore Before_1_9 col v = Some 100"
    unfolding eq k scipy_formula.case x using n0 by (simp add: to_double_numeral)
  then show ?thesis by (simp add: percentile_cell_def to_double_one)
qed

lemma double_values_ranks:
  "to_double (50 / 11) = 5117726849284655 / 1125899906842624"
  "to_double (56294995342131205 / 562949953421312) = 7036874417766401 / 70368744177664"
  "to_double (7036874417766401 / 7036874417766400) = 4503599627370497 / 4503599627370496"
  "to_double (100 / 37) = 3042972721196281 / 1125899906842624"
  "to_double (3042972721196281 / 112589990684262400) = 7790010166262479 / 288230376151711744"
  "to_double (50 / 37) = 3042972721196281 / 2251799813685248"
  "to_double (3042972721196281 / 1125899906842624) = 3042972721196281 / 1125899906842624"
  by code_simp+

text \<open>
  C7 as stated fails in three ways. When the maximum is shared its rows are below 1: in
  the column 0.3, 0.3 both have percentile 0.75. With the formula of SciPy 1.9 the
  rounding can exceed 1: the single maximum of 11 rows gets
  \<^verbatim>\<open>22 * (50.0 / 11) / 100 = 1.0000000000000002\<close>. With either formula the rounding can
  fall below \<open>1/n\<close>: the single minimum of 37 rows gets 0.027027027027027025, less than
  1/37.
\<close>

theorem percentile_max_tie_counterexample:
  "Max (set [to_double (3 / 10), to_double (3 / 10)]) = to_double (3 / 10)
   \<and> percentile_cell Before_1_9 [to_double (3 / 10), to_double (3 / 10)] (to_double (3 / 10))
       = Some (3 / 4)
   \<and> percentile_cell Since_1_9 [to_double (3 / 10), to_double (3 / 10)] (to_double (3 / 10))
       = Some (3 / 4)
   \<and> Max (set (replicate 10 1 @ [2 :: rat])) = 2 \<and> count_list (replicate 10 1 @ [2 :: rat]) 2 = 1
   \<and> percentile_cell Since_1_9 (replicate 10 1 @ [2]) 2 = Some (1 + 1 / 2 ^ 52)
   \<and> Min (set (1 # replicate 36 (2 :: rat))) = 1 \<and> length (1 # replicate 36 (2 :: rat)) = 37
   \<and> percentile_cell Before_1_9 (1 # replicate 36 2) 1
       = Some (7790010166262479 / 288230376151711744)
   \<and> percentile_cell Since_1_9 (1 # replicate 36 2) 1
       = Some (7790010166262479 / 288230376151711744)
   \<and> (7790010166262479 / 288230376151711744 :: rat) < 1 / 37"
proof -
  have a: "percentile_cell Before_1_9 [to_double (3 / 10), to_double (3 / 10)] (to_double (3 / 10))
       = Some (3 / 4)"
    "percentile_cell Since_1_9 [to_double (3 / 10), to_double (3 / 10)] (to_double (3 / 10))
       = Some (3 / 4)"
    by (simp_all add: percentile_cell_def percentileofscore_def double_values to_double_numeral)
  have b: "percentile_cell Since_1_9 (replicate 10 1 @ [2]) 2 = Some (1 + 1 / 2 ^ 52)"
    by (simp add: percentile_cell_def percentileofscore_def double_values_ranks
        to_double_numeral)
  have c: "percentile_cell Before_1_9 (1 # replicate 36 2) 1
       = Some (7790010166262479 / 288230376151711744)"
    "percentile_cell Since_1_9 (1 # replicate 36 2) 1
       = Some (7790010166262479 / 288230376151711744)"
    by (simp_all add: percentile_cell_def percentileofscore_def double_values_ranks
        to_double_numeral)
  have m: "Max (set (replicate 10 1 @ [2 :: rat])) = 2" by simp
  have k: "count_list (replicate 10 1 @ [2 :: rat]) 2 = 1" by (simp add: count_list_0_iff)
  have n: "Min (set (1 # replicate 36 (2 :: rat))) = 1" by simp
  show ?thesis using a b c m k n by simp
qed

text \<open>
  C7, amended. For a value of a column of \<open>n\<close> numbers, \<open>n\<close> below \<open>2 ^ 52\<close>, and either
  SciPy formula, the computed percentile \<open>p\<close> satisfies \<open>0 < p \<le> (1 + 2 powi (- 53)) ^ 3\<close>
  and \<open>p \<ge> (1 - 2 powi (- 53)) ^ 3 / n\<close> (so the minimum's does). A row holding the
  maximum has a percentile within three roundings of \<open>1 - (c - 1) / (2n)\<close>, where \<open>c\<close> rows
  hold the maximum. It is exactly 1 when one row holds the maximum, the formula is the one
  before SciPy 1.9 and \<open>n\<close> is below \<open>2 ^ 46\<close>. With one row the percentile is exactly 1.
\<close>

theorem percentile_bounds:
  assumes "v \<in> set col" "length col < 2 ^ 52"
  shows "\<exists>p. percentile_cell formula col v = Some p
           \<and> 0 < p \<and> p \<le> (1 + 1 / 2 ^ 53) ^ 3
           \<and> 1 / of_nat (length col) * (1 - 1 / 2 ^ 53) ^ 3 \<le> p
           \<and> (v = Max (set col) \<longrightarrow>
                 (1 - of_nat (count_list col v - 1) / of_nat (2 * length col)) * (1 - 1 / 2 ^ 53) ^ 3 \<le> p
               \<and> p \<le> (1 - of_nat (count_list col v - 1) / of_nat (2 * length col)) * (1 + 1 / 2 ^ 53) ^ 3)
           \<and> (v = Max (set col) \<and> count_list col v = 1 \<and> formula = Before_1_9
                \<and> length col < 2 ^ 46 \<longrightarrow> p = 1)
           \<and> (length col = 1 \<longrightarrow> p = 1)"
proof -
  let ?m = "rat_of_nat (length (filter (\<lambda>x. x \<le> v) col) + length (filter (\<lambda>x. x < v) col) + 1)
              / of_nat (2 * length col)"
  from percentile_cell_bounds [OF assms, of formula]
  obtain p where cell: "percentile_cell formula col v = Some p"
    and lo: "?m * (1 - 1 / 2 ^ 53) ^ 3 \<le> p" and hi: "p \<le> ?m * (1 + 1 / 2 ^ 53) ^ 3"
    by blast
  have m1: "1 / of_nat (length col) \<le> ?m" and m2: "?m \<le> 1"
    by (rule rank_ratio_bounds [OF assms(1)])+
  have npos: "0 < rat_of_nat (length col)" using assms(1) by (cases col) auto
  have a3: "0 < (1 - 1 / 2 ^ 53 :: rat) ^ 3" by simp
  have b3: "0 < (1 + 1 / 2 ^ 53 :: rat) ^ 3" by simp
  have low: "1 / of_nat (length col) * (1 - 1 / 2 ^ 53) ^ 3 \<le> p"
  proof -
    have "1 / of_nat (length col) * (1 - 1 / 2 ^ 53) ^ 3 \<le> ?m * (1 - 1 / 2 ^ 53) ^ 3"
      using m1 a3 by (simp only: mult_le_cancel_right_pos)
    then show ?thesis using lo by (rule order_trans)
  qed
  have pos: "0 < p"
  proof -
    have "0 < 1 / rat_of_nat (length col) * (1 - 1 / 2 ^ 53) ^ 3"
      using npos a3 by (intro mult_pos_pos) simp_all
    then show ?thesis using low by (rule less_le_trans)
  qed
  have up: "p \<le> (1 + 1 / 2 ^ 53) ^ 3"
  proof -
    have "?m * (1 + 1 / 2 ^ 53) ^ 3 \<le> 1 * (1 + 1 / 2 ^ 53) ^ 3"
      using m2 b3 by (simp only: mult_le_cancel_right_pos)
    then have "?m * (1 + 1 / 2 ^ 53) ^ 3 \<le> (1 + 1 / 2 ^ 53) ^ 3" by (simp only: mult_1)
    with hi show ?thesis by (rule order_trans)
  qed
  have top: "v = Max (set col) \<longrightarrow>
                 (1 - of_nat (count_list col v - 1) / of_nat (2 * length col)) * (1 - 1 / 2 ^ 53) ^ 3 \<le> p
               \<and> p \<le> (1 - of_nat (count_list col v - 1) / of_nat (2 * length col)) * (1 + 1 / 2 ^ 53) ^ 3"
  proof
    assume "v = Max (set col)"
    from rank_at_max [OF assms(1) this] lo hi
    show "(1 - of_nat (count_list col v - 1) / of_nat (2 * length col)) * (1 - 1 / 2 ^ 53) ^ 3 \<le> p
               \<and> p \<le> (1 - of_nat (count_list col v - 1) / of_nat (2 * length col)) * (1 + 1 / 2 ^ 53) ^ 3"
      by (simp only: simp_thms)
  qed
  have top1: "v = Max (set col) \<and> count_list col v = 1 \<and> formula = Before_1_9
                \<and> length col < 2 ^ 46 \<longrightarrow> p = 1"
  proof
    assume a: "v = Max (set col) \<and> count_list col v = 1 \<and> formula = Before_1_9
                \<and> length col < 2 ^ 46"
    then have v: "v = Max (set col)" and c: "count_list col v = 1"
      and f: "formula = Before_1_9" and n: "length col < 2 ^ 46" by blast+
    have "percentile_cell Before_1_9 col v = Some 1"
      by (rule percentile_cell_sole_max [OF assms(1) v c n])
    with cell show "p = 1" unfolding f by simp
  qed
  have sole: "length col = 1 \<longrightarrow> p = 1"
  proof
    assume "length col = 1"
    then have "col = [v]" using assms(1) by (cases col) auto
    with cell show "p = 1" by (simp add: percentile_cell_sole)
  qed
  show ?thesis
    by (rule exI [of _ p]) (intro conjI cell pos up low top top1 sole)
qed

theorem percentile_bounds_witness:
  "(5::rat) \<in> set [1, 5, 2] \<and> length [1, 5, 2 :: rat] < 2 ^ 52
   \<and> Max (set [1, 5, 2 :: rat]) = 5 \<and> count_list [1, 5, 2 :: rat] 5 = 1
   \<and> length [1, 5, 2 :: rat] < 2 ^ 46
   \<and> percentile_cell Before_1_9 [1, 5, 2] 5 = Some 1"
proof -
  have mem: "(5::rat) \<in> set [1, 5, 2]" and len: "length [1, 5, 2 :: rat] < 2 ^ 52" by simp_all
  have top: "(5::rat) = Max (set [1, 5, 2]) \<and> count_list [1, 5, 2 :: rat] 5 = 1
      \<and> Before_1_9 = Before_1_9 \<and> length [1, 5, 2 :: rat] < 2 ^ 46" by simp
  from percentile_bounds [OF mem len, of Before_1_9]
  obtain p where cell: "percentile_cell Before_1_9 [1, 5, 2] 5 = Some p"
    and one: "(5::rat) = Max (set [1, 5, 2]) \<and> count_list [1, 5, 2 :: rat] 5 = 1
      \<and> Before_1_9 = Before_1_9 \<and> length [1, 5, 2 :: rat] < 2 ^ 46 \<longrightarrow> p = 1"
    by blast
  from one top have "p = 1" by (rule mp)
  with cell have "percentile_cell Before_1_9 [1, 5, 2] 5 = Some 1" by simp
  with mem len top show ?thesis by simp
qed

subsection \<open>ScoreAggregator\<close>

lemma for_rows_Inr:
  assumes "for_rows body df = Inr df'"
  shows "length df' = length df \<and> (\<forall>i < length df. body (df ! i) = Inr (df' ! i))"
  using assms
proof (induction df arbitrary: df')
  case Nil
  then show ?case by simp
next
  case (Cons r rs)
  from Cons.prems obtain r' rs' where r: "body r = Inr r'" and rs: "for_rows body rs = Inr rs'"
    and df': "df' = r' # rs'"
    by (auto split: sum.splits)
  from Cons.IH [OF rs] have len: "length rs' = length rs"
    and all: "\<forall>i < length rs. body (rs ! i) = Inr (rs' ! i)" by auto
  show ?case unfolding df' using r len all by (auto simp: nth_Cons split: nat.splits)
qed

lemma momentum_row_Inr:
  assumes "momentum_row r = Inr r'"
  shows "\<exists>a b c d. one_year_return r = Some a \<and> six_month_return r = Some b
           \<and> three_month_return r = Some c \<and> one_month_return r = Some d
           \<and> r' = r\<lparr>momentum_score := Some (to_double ((a + b + c + d) / 4))\<rparr>"
  using assms
  by (cases "one_year_return r"; cases "six_month_return r";
      cases "three_month_return r"; cases "one_month_return r")
     (auto simp: momentum_row_def mean_def Let_def add.assoc split: if_splits)

lemma calc_momentum_score_returns:
  assumes "calc_momentum_score df = Inr df'"
  shows "length df' = length df
       \<and> (\<forall>i < length df. \<exists>a b c d.
             one_year_return (df ! i) = Some a \<and> six_month_return (df ! i) = Some b
           \<and> three_month_return (df ! i) = Some c \<and> one_month_return (df ! i) = Some d
           \<and> df' ! i = (df ! i)\<lparr>momentum_score := Some (to_double ((a + b + c + d) / 4))\<rparr>)"
proof -
  from for_rows_Inr [OF assms [unfolded calc_momentum_score_def]]
  have len: "length df' = length df"
    and rows: "\<forall>i < length df. momentum_row (df ! i) = Inr (df' ! i)" by auto
  show ?thesis
  proof (intro conjI allI impI)
    show "length df' = length df" by (rule len)
  next
    fix i assume "i < length df"
    with rows have "momentum_row (df ! i) = Inr (df' ! i)" by simp
    then show "\<exists>a b c d.
             one_year_return (df ! i) = Some a \<and> six_month_return (df ! i) = Some b
           \<and> three_month_return (df ! i) = Some c \<and> one_month_return (df ! i) = Some d
           \<and> df' ! i = (df ! i)\<lparr>momentum_score := Some (to_double ((a + b + c + d) / 4))\<rparr>"
      by (rule momentum_row_Inr)
  qed
qed

lemma double_values_score:
  "to_double (23 / 40) = 2589569785738035 / 4503599627370496"
  "to_double (82866233143617127 / 144115188075855872) = 2589569785738035 / 4503599627370496"
  by code_simp+

text \<open>
  C2. The notebook's prose, the name \<^verbatim>\<open>momentum_percentiles\<close> and the specification
  make the score the mean of the four percentile columns; the loop reads the four return
  columns instead (\<open>calc_momentum_score_returns\<close>: on every table). On the table below A
  has one large yearly return, 2.0 then 0.1 three times, and B is steady at 0.5: with
  either SciPy formula the percentiles give A the mean 0.625 and B the mean 0.875, and the
  script scores A at 0.575 and B at 0.5, so it ranks them the other way round.
\<close>

theorem momentum_score_averages_returns:
  "(\<forall>formula. calc_percentiles formula
     [\<lparr>ticker = ''A'', stock_price = 10, num_of_shares_to_buy = None,
       one_year_return = Some 2, one_year_return_percentile = None,
       six_month_return = Some (to_double (1 / 10)), six_month_return_percentile = None,
       three_month_return = Some (to_double (1 / 10)), three_month_return_percentile = None,
       one_month_return = Some (to_double (1 / 10)), one_month_return_percentile = None,
       momentum_score = None\<rparr>,
      \<lparr>ticker = ''B'', stock_price = 10, num_of_shares_to_buy = None,
       one_year_return = Some (1 / 2), one_year_return_percentile = None,
       six_month_return = Some (1 / 2), six_month_return_percentile = None,
       three_month_return = Some (1 / 2), three_month_return_percentile = None,
       one_month_return = Some (1 / 2), one_month_return_percentile = None,
       momentum_score = None\<rparr>]
   = Some
     [\<lparr>ticker = ''A'', stock_price = 10, num_of_shares_to_buy = None,
       one_year_return = Some 2, one_year_return_percentile = Some 1,
       six_month_return = Some (to_double (1 / 10)), six_month_return_percentile = Some (1 / 2),
       three_month_return = Some (to_double (1 / 10)), three_month_return_percentile = Some (1 / 2),
       one_month_return = Some (to_double (1 / 10)), one_month_return_percentile = Some (1 / 2),
       momentum_score = None\<rparr>,
      \<lparr>ticker = ''B'', stock_price = 10, num_of_shares_to_buy = None,
       one_year_return = Some (1 / 2), one_year_return_percentile = Some (1 / 2),
       six_month_return = Some (1 / 2), six_month_return_percentile = Some 1,
       three_month_return = Some (1 / 2), three_month_return_percentile = Some 1,
       one_month_return = Some (1 / 2), one_month_return_percentile = Some 1,
       momentum_score = None\<rparr>])
   \<and> calc_momentum_score
     [\<lparr>ticker = ''A'', stock_price = 10, num_of_shares_to_buy = None,
       one_year_return = Some 2, one_year_return_percentile = Some 1,
       six_month_return = Some (to_double (1 / 10)), six_month_return_percentile = Some (1 / 2),
       three_month_return = Some (to_double (1 / 10)), three_month_return_percentile = Some (1 / 2),
       one_month_return = Some (to_double (1 / 10)), one_month_return_percentile = Some (1 / 2),
       momentum_score = None\<rparr>,
      \<lparr>ticker = ''B'', stock_price = 10, num_of_shares_to_buy = None,
       one_year_return = Some (1 / 2), one_year_return_percentile = Some (1 / 2),
       six_month_return = Some (1 / 2), six_month_return_percentile = Some 1,
       three_month_return = Some (1 / 2), three_month_return_percentile = Some 1,
       one_month_return = Some (1 / 2), one_month_return_percentile = Some 1,
       momentum_score = None\<rparr>]
   = Inr
     [\<lparr>ticker = ''A'', stock_price = 10, num_of_shares_to_buy = None,
       one_year_return = Some 2, one_year_return_percentile = Some 1,
       six_month_return = Some (to_double (1 / 10)), six_month_return_percentile = Some (1 / 2),
       three_month_return = Some (to_double (1 / 10)), three_month_return_percentile = Some (1 / 2),
       one_month_return = Some (to_double (1 / 10)), one_month_return_percentile = Some (1 / 2),
       momentum_score = Some (to_double (23 / 40))\<rparr>,
      \<lparr>ticker = ''B'', stock_price = 10, num_of_shares_to_buy = None,
       one_year_return = Some (1 / 2), one_year_return_percentile = Some (1 / 2),
       six_month_return = Some (1 / 2), six_month_return_percentile = Some 1,
       three_month_return = Some (1 / 2), three_month_return_percentile = Some 1,
       one_month_return = Some (1 / 2), one_month_return_percentile = Some 1,
       momentum_score = Some (1 / 2)\<rparr>]
   \<and> map mean_of_percentiles
     [\<lparr>ticker = ''A'', stock_price = 10, num_of_shares_to_buy = None,
       one_year_return = Some 2, one_year_return_percentile = Some 1,
       six_month_return = Some (to_double (1 / 10)), six_month_return_percentile = Some (1 / 2),
       three_month_return = Some (to_double (1 / 10)), three_month_return_percentile = Some (1 / 2),
       one_month_return = Some (to_double (1 / 10)), one_month_return_percentile = Some (1 / 2),
       momentum_score = None\<rparr>,
      \<lparr>ticker = ''B'', stock_price = 10, num_of_shares_to_buy = None,
       one_year_return = Some (1 / 2), one_year_return_percentile = Some (1 / 2),
       six_month_return = Some (1 / 2), six_month_return_percentile = Some 1,
       three_month_return = Some (1 / 2), three_month_return_percentile = Some 1,
       one_month_return = Some (1 / 2), one_month_return_percentile = Some 1,
       momentum_score = None\<rparr>]
     = [Inr (5 / 8), Inr (7 / 8)]"
proof (intro conjI allI)
  fix formula
  show "calc_percentiles formula
     [\<lparr>ticker = ''A'', stock_price = 10, num_of_shares_to_buy = None,
       one_year_return = Some 2, one_year_return_percentile = None,
       six_month_return = Some (to_double (1 / 10)), six_month_return_percentile = None,
       three_month_return = Some (to_double (1 / 10)), three_month_return_percentile = None,
       one_month_return = Some (to_double (1 / 10)), one_month_return_percentile = None,
       momentum_score = None\<rparr>,
      \<lparr>ticker = ''B'', stock_price = 10, num_of_shares_to_buy = None,
       one_year_return = Some (1 / 2), one_year_return_percentile = None,
       six_month_return = Some (1 / 2), six_month_return_percentile = None,
       three_month_return = Some (1 / 2), three_month_return_percentile = None,
       one_month_return = Some (1 / 2), one_month_return_percentile = None,
       momentum_score = None\<rparr>]
   = Some
     [\<lparr>ticker = ''A'', stock_price = 10, num_of_shares_to_buy = None,
       one_year_return = Some 2, one_year_return_percentile = Some 1,
       six_month_return = Some (to_double (1 / 10)), six_month_return_percentile = Some (1 / 2),
       three_month_return = Some (to_double (1 / 10)), three_month_return_percentile = Some (1 / 2),
       one_month_return = Some (to_double (1 / 10)), one_month_return_percentile = Some (1 / 2),
       momentum_score = None\<rparr>,
      \<lparr>ticker = ''B'', stock_price = 10, num_of_shares_to_buy = None,
       one_year_return = Some (1 / 2), one_year_return_percentile = Some (1 / 2),
       six_month_return = Some (1 / 2), six_month_return_percentile = Some 1,
       three_month_return = Some (1 / 2), three_month_return_percentile = Some 1,
       one_month_return = Some (1 / 2), one_month_return_percentile = Some 1,
       momentum_score = None\<rparr>]"
    by (cases formula)
       (simp_all add: calc_percentiles_def returns_def percentile_row_def percentile_cell_def
        percentileofscore_def double_values to_double_numeral to_double_one)
next
  show "calc_momentum_score
     [\<lparr>ticker = ''A'', stock_price = 10, num_of_shares_to_buy = None,
       one_year_return = Some 2, one_year_return_percentile = Some 1,
       six_month_return = Some (to_double (1 / 10)), six_month_return_percentile = Some (1 / 2),
       three_month_return = Some (to_double (1 / 10)), three_month_return_percentile = Some (1 / 2),
       one_month_return = Some (to_double (1 / 10)), one_month_return_percentile = Some (1 / 2),
       momentum_score = None\<rparr>,
      \<lparr>ticker = ''B'', stock_price = 10, num_of_shares_to_buy = None,
       one_year_return = Some (1 / 2), one_year_return_percentile = Some (1 / 2),
       six_month_return = Some (1 / 2), six_month_return_percentile = Some 1,
       three_month_return = Some (1 / 2), three_month_return_percentile = Some 1,
       one_month_return = Some (1 / 2), one_month_return_percentile = Some 1,
       momentum_score = None\<rparr>]
   = Inr
     [\<lparr>ticker = ''A'', stock_price = 10, num_of_shares_to_buy = None,
       one_year_return = Some 2, one_year_return_percentile = Some 1,
       six_month_return = Some (to_double (1 / 10)), six_month_return_percentile = Some (1 / 2),
       three_month_return = Some (to_double (1 / 10)), three_month_return_percentile = Some (1 / 2),
       one_month_return = Some (to_double (1 / 10)), one_month_return_percentile = Some (1 / 2),
       momentum_score = Some (to_double (23 / 40))\<rparr>,
      \<lparr>ticker = ''B'', stock_price = 10, num_of_shares_to_buy = None,
       one_year_return = Some (1 / 2), one_year_return_percentile = Some (1 / 2),
       six_month_return = Some (1 / 2), six_month_return_percentile = Some 1,
       three_month_return = Some (1 / 2), three_month_return_percentile = Some 1,
       one_month_return = Some (1 / 2), one_month_return_percentile = Some 1,
       momentum_score = Some (1 / 2)\<rparr>]"
    by (simp add: calc_momentum_score_def momentum_row_def mean_def double_values
        double_values_score)
next
  show "map mean_of_percentiles
     [\<lparr>ticker = ''A'', stock_price = 10, num_of_shares_to_buy = None,
       one_year_return = Some 2, one_year_return_percentile = Some 1,
       six_month_return = Some (to_double (1 / 10)), six_month_return_percentile = Some (1 / 2),
       three_month_return = Some (to_double (1 / 10)), three_month_return_percentile = Some (1 / 2),
       one_month_return = Some (to_double (1 / 10)), one_month_return_percentile = Some (1 / 2),
       momentum_score = None\<rparr>,
      \<lparr>ticker = ''B'', stock_price = 10, num_of_shares_to_buy = None,
       one_year_return = Some (1 / 2), one_year_return_percentile = Some (1 / 2),
       six_month_return = Some (1 / 2), six_month_return_percentile = Some 1,
       three_month_return = Some (1 / 2), three_month_return_percentile = Some 1,
       one_month_return = Some (1 / 2), one_month_return_percentile = Some 1,
       momentum_score = None\<rparr>]
     = [Inr (5 / 8), Inr (7 / 8)]"
    by (simp add: mean_of_percentiles_def mean_def double_values)
qed

subsection \<open>Construction of the Universe\<close>

lemma py_split_nonempty: "py_split c s \<noteq> []"
  by (induction s) (auto split: list.splits)

lemma py_split_no_sep: "c \<notin> set s \<Longrightarrow> py_split c s = [s]"
  by (induction s) auto

lemma py_split_sep: "c \<notin> set x \<Longrightarrow> py_split c (x @ c # rest) = x # py_split c rest"
  by (induction x) (auto split: list.splits simp: py_split_nonempty)

lemma py_split_join:
  "g \<noteq> [] \<Longrightarrow> \<forall>s \<in> set g. CHR '','' \<notin> set s \<Longrightarrow> py_split CHR '','' (py_join '','' g) = g"
proof (induction "'',''" g rule: py_join.induct)
  case 1
  then show ?case by simp
next
  case (2 x)
  then show ?case by (simp add: py_split_no_sep)
next
  case (3 x y ys)
  then show ?case by (simp add: py_split_sep)
qed

lemma map_inverse_on: "\<forall>g \<in> set gs. f (h g) = g \<Longrightarrow> map f (map h gs) = gs"
  by (induction gs) auto

lemma symbol_strings_split:
  assumes "\<forall>s \<in> set stocks. CHR '','' \<notin> set s"
  shows "\<exists>strs. symbol_strings stocks = Inr strs
           \<and> concat (map (py_split CHR '','') strs) = stocks"
proof -
  let ?groups = "map (\<lambda>j. py_slice stocks j (j + 100)) (range_up 0 (int (length stocks)) 100)"
  have run: "chunks_generator stocks 100 = Inr ?groups"
    by (rule chunks_generator_pos) simp
  have cover: "concat ?groups = stocks"
    using range_up_slices [of 100 0 stocks] by simp
  have "\<forall>g \<in> set ?groups. py_split CHR '','' (py_join '','' g) = g"
  proof
    fix g assume g: "g \<in> set ?groups"
    then obtain j where j: "j \<in> set (range_up 0 (int (length stocks)) 100)"
      and eq: "g = py_slice stocks j (j + 100)" by auto
    have ne: "g \<noteq> []" using range_up_len [of 100 0 j stocks] j eq by simp
    have "set g \<subseteq> set stocks"
      unfolding eq py_slice_def Let_def
      by (meson set_take_subset set_drop_subset subset_trans)
    with assms have "\<forall>s \<in> set g. CHR '','' \<notin> set s" by blast
    with ne show "py_split CHR '','' (py_join '','' g) = g" by (rule py_split_join)
  qed
  then have "map (py_split CHR '','') (map (py_join '','') ?groups) = ?groups"
    by (rule map_inverse_on)
  then have "concat (map (py_split CHR '','') (map (py_join '','') ?groups)) = concat ?groups"
    by (simp only:)
  then have "concat (map (py_split CHR '','') (map (py_join '','') ?groups)) = stocks"
    using cover by (simp only:)
  moreover have "symbol_strings stocks = Inr (map (py_join '','') ?groups)"
    by (simp only: symbol_strings_def run sum.case)
  ultimately show ?thesis by blast
qed

lemma append_rows_eq:
  "append_rows mk data syms df
     = (if set syms \<subseteq> dom data then Inr (df @ map (\<lambda>s. mk s (the (data s))) syms)
        else Inl KeyError)"
  by (induction syms arbitrary: df) (auto split: option.splits)

lemma build_table_Inr:
  assumes "build_table mk get strs df = Inr df'"
  shows "(\<forall>ss \<in> set strs. \<exists>data. get ss = Some data \<and> set (py_split CHR '','' ss) \<subseteq> dom data)
       \<and> df' = df @ concat (map (\<lambda>ss. map (\<lambda>s. mk s (the (the (get ss) s)))
                                        (py_split CHR '','' ss)) strs)"
  using assms
proof (induction strs arbitrary: df)
  case Nil
  then show ?case by simp
next
  case (Cons ss strs)
  from Cons.prems obtain data where data: "get ss = Some data"
    by (auto split: option.splits)
  from Cons.prems data have dom: "set (py_split CHR '','' ss) \<subseteq> dom data"
    by (auto simp: append_rows_eq split: if_splits)
  from Cons.prems data dom
  have rest: "build_table mk get strs (df @ map (\<lambda>s. mk s (the (data s))) (py_split CHR '','' ss)) = Inr df'"
    by (simp add: append_rows_eq)
  from Cons.IH [OF rest] data dom show ?case by simp
qed


lemma build_table_Inl:
  assumes "build_table mk get strs df = Inl e"
  shows "e = KeyError \<or> (e = AssertionError \<and> (\<exists>ss \<in> set strs. get ss = None))"
  using assms
proof (induction strs arbitrary: df)
  case Nil
  then show ?case by simp
next
  case (Cons ss strs)
  show ?case
  proof (cases "get ss")
    case None
    with Cons.prems show ?thesis by simp
  next
    case (Some data)
    show ?thesis
    proof (cases "set (py_split CHR '','' ss) \<subseteq> dom data")
      case True
      with Cons.prems Some
      have "build_table mk get strs (df @ map (\<lambda>s. mk s (the (data s))) (py_split CHR '','' ss)) = Inl e"
        by (simp add: append_rows_eq)
      from Cons.IH [OF this] show ?thesis by auto
    next
      case False
      with Cons.prems Some show ?thesis by (simp add: append_rows_eq)
    qed
  qed
qed

lemma new_hqm_row_ticker: "ticker (new_hqm_row s e) = s"
  by (simp add: new_hqm_row_def)


lemma build_table_eq:
  assumes "\<forall>ss \<in> set strs. \<exists>data. get ss = Some data \<and> set (py_split CHR '','' ss) \<subseteq> dom data"
  shows "build_table mk get strs df
     = Inr (df @ concat (map (\<lambda>ss. map (\<lambda>s. mk s (the (the (get ss) s)))
                                      (py_split CHR '','' ss)) strs))"
  using assms
proof (induction strs arbitrary: df)
  case Nil
  then show ?case by simp
next
  case (Cons ss strs)
  from Cons.prems obtain data where data: "get ss = Some data"
    and dom: "set (py_split CHR '','' ss) \<subseteq> dom data" by auto
  have rest: "\<forall>ss \<in> set strs. \<exists>data. get ss = Some data \<and> set (py_split CHR '','' ss) \<subseteq> dom data"
    using Cons.prems by simp
  show ?case using data dom by (simp add: append_rows_eq Cons.IH [OF rest])
qed

text \<open>
  C5 as stated fails: a batch of three symbols answered for two of them does not drop the
  third and go on. \<^verbatim>\<open>data[symbol]\<close> raises \<^verbatim>\<open>KeyError\<close> and the run ends without a
  Universe.
\<close>

theorem missing_entry_counterexample:
  "hqm_universe
     (\<lambda>s. Some [''A'' \<mapsto> \<lparr>price = 10, year1ChangePercent = Some (1 / 2),
                             month6ChangePercent = Some (1 / 4), month3ChangePercent = Some (1 / 8),
                             month1ChangePercent = Some 0\<rparr>,
                  ''B'' \<mapsto> \<lparr>price = 20, year1ChangePercent = Some (1 / 4),
                             month6ChangePercent = Some (1 / 4), month3ChangePercent = Some (1 / 4),
                             month1ChangePercent = Some (1 / 4)\<rparr>])
     [''A'', ''B'', ''C'']
   = Inl KeyError"
  by (simp add: hqm_universe_def hqm_table_def symbol_strings_def chunks_generator_def
      py_range_def range_up.simps py_slice_def slice_index_def)


text \<open>
  C5, amended. Tickers hold no comma. The request is cut into symbol strings that, split
  again, give back the requested symbols in order. If the answer to some batch lacks an
  entry for one of the symbols requested in it, the run ends with an exception,
  \<^verbatim>\<open>KeyError\<close> when every batch was answered. If every batch is answered with an entry
  for each of its symbols, the table has one row per requested symbol, in the order of the
  request, holding the values of its entry as they came (a null stays null, nothing becomes
  zero); the Universe is that table without the rows whose one-year return is null, in the
  same order; and the rest of the run (ranking, scores, selection, allocation) is applied
  to this Universe. The result of the stage is the table alone: no set of dropped symbols
  exists.
\<close>

theorem hqm_universe_partial_data:
  assumes "\<forall>s \<in> set stocks. CHR '','' \<notin> set s"
  shows "\<exists>strs. symbol_strings stocks = Inr strs
       \<and> concat (map (py_split CHR '','') strs) = stocks
       \<and> ((\<exists>ss \<in> set strs. \<exists>data. get ss = Some data
                \<and> \<not> set (py_split CHR '','' ss) \<subseteq> dom data) \<longrightarrow>
            (\<exists>e. hqm_universe get stocks = Inl e)
            \<and> ((\<forall>ss \<in> set strs. get ss \<noteq> None) \<longrightarrow> hqm_universe get stocks = Inl KeyError))
       \<and> ((\<forall>ss \<in> set strs. \<exists>data. get ss = Some data
                \<and> set (py_split CHR '','' ss) \<subseteq> dom data) \<longrightarrow>
            hqm_table get stocks
              = Inr (concat (map (\<lambda>ss. map (\<lambda>s. new_hqm_row s (the (the (get ss) s)))
                                          (py_split CHR '','' ss)) strs))
            \<and> map ticker (concat (map (\<lambda>ss. map (\<lambda>s. new_hqm_row s (the (the (get ss) s)))
                                          (py_split CHR '','' ss)) strs)) = stocks
            \<and> hqm_universe get stocks
              = Inr (filter (\<lambda>r. one_year_return r \<noteq> None)
                  (concat (map (\<lambda>ss. map (\<lambda>s. new_hqm_row s (the (the (get ss) s)))
                                          (py_split CHR '','' ss)) strs)))
            \<and> hqm_run get formula on_null argsort stocks top_n portfolio_size
              = (case calc_percentiles formula
                        (filter (\<lambda>r. one_year_return r \<noteq> None)
                          (concat (map (\<lambda>ss. map (\<lambda>s. new_hqm_row s (the (the (get ss) s)))
                                          (py_split CHR '','' ss)) strs))) of
                   None \<Rightarrow>
                     on_null (filter (\<lambda>r. one_year_return r \<noteq> None)
                          (concat (map (\<lambda>ss. map (\<lambda>s. new_hqm_row s (the (the (get ss) s)))
                                          (py_split CHR '','' ss)) strs)))
                 | Some ranked \<Rightarrow>
                     (case calc_momentum_score ranked of
                        Inl e \<Rightarrow> Inl e
                      | Inr scored \<Rightarrow>
                          allocate portfolio_size
                            (select_top argsort momentum_score top_n scored))))"
proof -
  from symbol_strings_split [OF assms] obtain strs
    where strs: "symbol_strings stocks = Inr strs"
      and cover: "concat (map (py_split CHR '','') strs) = stocks" by blast
  let ?rows = "concat (map (\<lambda>ss. map (\<lambda>s. new_hqm_row s (the (the (get ss) s)))
                                          (py_split CHR '','' ss)) strs)"
  have missing: "(\<exists>ss \<in> set strs. \<exists>data. get ss = Some data
                \<and> \<not> set (py_split CHR '','' ss) \<subseteq> dom data) \<longrightarrow>
            (\<exists>e. hqm_universe get stocks = Inl e)
            \<and> ((\<forall>ss \<in> set strs. get ss \<noteq> None) \<longrightarrow> hqm_universe get stocks = Inl KeyError)"
  proof
    assume "\<exists>ss \<in> set strs. \<exists>data. get ss = Some data
                \<and> \<not> set (py_split CHR '','' ss) \<subseteq> dom data"
    then obtain ss data where ss: "ss \<in> set strs" "get ss = Some data"
      "\<not> set (py_split CHR '','' ss) \<subseteq> dom data" by blast
    have "\<exists>e. build_table new_hqm_row get strs [] = Inl e"
    proof (cases "build_table new_hqm_row get strs []")
      case (Inl e)
      then show ?thesis by blast
    next
      case (Inr df)
      from build_table_Inr [OF this] ss(1)
      obtain data' where "get ss = Some data'" "set (py_split CHR '','' ss) \<subseteq> dom data'"
        by blast
      with ss(2,3) show ?thesis by simp
    qed
    then obtain e where e: "build_table new_hqm_row get strs [] = Inl e" by blast
    then have run: "hqm_universe get stocks = Inl e"
      using strs by (simp add: hqm_universe_def hqm_table_def)
    have "(\<forall>ss \<in> set strs. get ss \<noteq> None) \<longrightarrow> e = KeyError"
      using build_table_Inl [OF e] by blast
    with run show "(\<exists>e. hqm_universe get stocks = Inl e)
            \<and> ((\<forall>ss \<in> set strs. get ss \<noteq> None) \<longrightarrow> hqm_universe get stocks = Inl KeyError)"
      by auto
  qed
  have answered: "(\<forall>ss \<in> set strs. \<exists>data. get ss = Some data
                \<and> set (py_split CHR '','' ss) \<subseteq> dom data) \<longrightarrow>
            hqm_table get stocks = Inr ?rows
            \<and> map ticker ?rows = stocks
            \<and> hqm_universe get stocks = Inr (filter (\<lambda>r. one_year_return r \<noteq> None) ?rows)
            \<and> hqm_run get formula on_null argsort stocks top_n portfolio_size
              = (case calc_percentiles formula (filter (\<lambda>r. one_year_return r \<noteq> None) ?rows) of
                   None \<Rightarrow> on_null (filter (\<lambda>r. one_year_return r \<noteq> None) ?rows)
                 | Some ranked \<Rightarrow>
                     (case calc_momentum_score ranked of
                        Inl e \<Rightarrow> Inl e
                      | Inr scored \<Rightarrow>
                          allocate portfolio_size
                            (select_top argsort momentum_score top_n scored)))"
  proof
    assume ok: "\<forall>ss \<in> set strs. \<exists>data. get ss = Some data
                \<and> set (py_split CHR '','' ss) \<subseteq> dom data"
    have "build_table new_hqm_row get strs [] = Inr ([] @ ?rows)"
      using ok by (rule build_table_eq)
    then have t1: "hqm_table get stocks = Inr ?rows"
      using strs by (simp add: hqm_table_def)
    have "map ticker ?rows = concat (map (py_split CHR '','') strs)"
      by (simp add: map_concat comp_def new_hqm_row_ticker)
    then have t2: "map ticker ?rows = stocks" using cover by simp
    have t3: "hqm_universe get stocks = Inr (filter (\<lambda>r. one_year_return r \<noteq> None) ?rows)"
      by (simp only: hqm_universe_def t1 sum.case dropna_one_year_def)
    have t4: "hqm_run get formula on_null argsort stocks top_n portfolio_size
              = (case calc_percentiles formula (filter (\<lambda>r. one_year_return r \<noteq> None) ?rows) of
                   None \<Rightarrow> on_null (filter (\<lambda>r. one_year_return r \<noteq> None) ?rows)
                 | Some ranked \<Rightarrow>
                     (case calc_momentum_score ranked of
                        Inl e \<Rightarrow> Inl e
                      | Inr scored \<Rightarrow>
                          allocate portfolio_size
                            (select_top argsort momentum_score top_n scored)))"
      by (simp only: hqm_run_def t3 sum.case)
    show "hqm_table get stocks = Inr ?rows
            \<and> map ticker ?rows = stocks
            \<and> hqm_universe get stocks = Inr (filter (\<lambda>r. one_year_return r \<noteq> None) ?rows)
            \<and> hqm_run get formula on_null argsort stocks top_n portfolio_size
              = (case calc_percentiles formula (filter (\<lambda>r. one_year_return r \<noteq> None) ?rows) of
                   None \<Rightarrow> on_null (filter (\<lambda>r. one_year_return r \<noteq> None) ?rows)
                 | Some ranked \<Rightarrow>
                     (case calc_momentum_score ranked of
                        Inl e \<Rightarrow> Inl e
                      | Inr scored \<Rightarrow>
                          allocate portfolio_size
                            (select_top argsort momentum_score top_n scored)))"
      by (intro conjI t1 t2 t3 t4)
  qed
  show ?thesis
    by (rule exI [of _ strs]) (intro conjI strs cover missing answered)
qed


lemma symbol_strings_example: "symbol_strings [''A'', ''B''] = Inr [''A,B'']"
  by (simp add: symbol_strings_def chunks_generator_def py_range_def range_up.simps
      py_slice_def slice_index_def)

theorem hqm_universe_partial_data_witness:
  "CHR '','' \<notin> set ''A'' \<and> CHR '','' \<notin> set ''B''
   \<and> symbol_strings [''A'', ''B''] = Inr [''A,B'']
   \<and> py_split CHR '','' ''A,B'' = [''A'', ''B'']
   \<and> hqm_universe
     (\<lambda>s. Some [''A'' \<mapsto> \<lparr>price = 10, year1ChangePercent = Some (1 / 2),
                             month6ChangePercent = Some (1 / 4), month3ChangePercent = None,
                             month1ChangePercent = Some 0\<rparr>,
                  ''B'' \<mapsto> \<lparr>price = 20, year1ChangePercent = None,
                             month6ChangePercent = Some (1 / 4), month3ChangePercent = Some (1 / 4),
                             month1ChangePercent = Some (1 / 4)\<rparr>])
     [''A'', ''B'']
   = Inr [\<lparr>ticker = ''A'', stock_price = 10, num_of_shares_to_buy = None,
       one_year_return = Some (1 / 2), one_year_return_percentile = None,
       six_month_return = Some (1 / 4), six_month_return_percentile = None,
       three_month_return = None, three_month_return_percentile = None,
       one_month_return = Some 0, one_month_return_percentile = None,
       momentum_score = None\<rparr>]
   \<and> hqm_universe
     (\<lambda>s. Some [''A'' \<mapsto> \<lparr>price = 10, year1ChangePercent = Some (1 / 2),
                             month6ChangePercent = Some (1 / 4), month3ChangePercent = None,
                             month1ChangePercent = Some 0\<rparr>])
     [''A'', ''B'']
   = Inl KeyError"
proof -
  let ?full = "\<lambda>s :: string. Some [''A'' \<mapsto> \<lparr>price = 10, year1ChangePercent = Some (1 / 2),
                             month6ChangePercent = Some (1 / 4), month3ChangePercent = None,
                             month1ChangePercent = Some 0\<rparr>,
                  ''B'' \<mapsto> \<lparr>price = 20, year1ChangePercent = None,
                             month6ChangePercent = Some (1 / 4), month3ChangePercent = Some (1 / 4),
                             month1ChangePercent = Some (1 / 4)\<rparr>]"
  let ?part = "\<lambda>s :: string. Some [''A'' \<mapsto> \<lparr>price = 10, year1ChangePercent = Some (1 / 2),
                             month6ChangePercent = Some (1 / 4), month3ChangePercent = None,
                             month1ChangePercent = Some 0\<rparr>]"
  have nc: "\<forall>s \<in> set [''A'', ''B'']. CHR '','' \<notin> set s" by simp
  have split: "py_split CHR '','' ''A,B'' = [''A'', ''B'']" by simp
  from hqm_universe_partial_data [OF nc, where get = ?full and formula = Since_1_9
      and on_null = "\<lambda>U. Inl TypeError" and argsort = "\<lambda>ks. []" and top_n = 50
      and portfolio_size = 1000000]
  have full: "hqm_universe ?full [''A'', ''B'']
   = Inr [\<lparr>ticker = ''A'', stock_price = 10, num_of_shares_to_buy = None,
       one_year_return = Some (1 / 2), one_year_return_percentile = None,
       six_month_return = Some (1 / 4), six_month_return_percentile = None,
       three_month_return = None, three_month_return_percentile = None,
       one_month_return = Some 0, one_month_return_percentile = None,
       momentum_score = None\<rparr>]"
    unfolding symbol_strings_example by (simp add: new_hqm_row_def del: not_None_eq)
  from hqm_universe_partial_data [OF nc, where get = ?part and formula = Since_1_9
      and on_null = "\<lambda>U. Inl TypeError" and argsort = "\<lambda>ks. []" and top_n = 50
      and portfolio_size = 1000000]
  have part: "hqm_universe ?part [''A'', ''B''] = Inl KeyError"
    unfolding symbol_strings_example by (simp del: not_None_eq)
  have c1: "CHR '','' \<notin> set ''A''" and c2: "CHR '','' \<notin> set ''B''" by simp_all
  show ?thesis
    by (intro conjI c1 c2 symbol_strings_example split full part)
qed

end
